theory Spec2Isabelle
  imports Main "HOL-Library.Word"
begin

unbundle bit_operations_syntax

section \<open>The DaVinci SPI master controller driver (drivers/spi/davinci\_spi.c)\<close>

text \<open>
  The driver is embedded function by function. Machine integers are words: \<open>u8\<close> and
  \<open>u32\<close> as in the source, and the C \<open>int\<close> of this 32-bit target as a 32-bit word that
  is read as two's complement (\<open><s\<close>, \<open>\<le>s\<close>, \<open>sint\<close>). Pointers are 32-bit addresses into
  a byte memory. Everything the driver does to its surroundings is explicit: a register
  read asks the environment for a value, and every register access, diagnostic and call
  into another subsystem is appended to a trace.
\<close>

subsection \<open>Machine types, error codes, registers\<close>

type_synonym u8 = "8 word"
type_synonym u32 = "32 word"
type_synonym s32 = "32 word"

text \<open>
  The negative errno values the driver returns. The numeric values live in the kernel's
  errno headers; only their being different codes matters here, so they are the
  constructors of a datatype. A C return value \<open>0\<close> or \<open>-E\<close> is a value of
  \<open>errno + unit\<close>, and "\<open>-E\<close> or a length" one of \<open>errno + u32\<close>.
\<close>

datatype errno = ETIMEDOUT | EIO | EBUSY | EINVAL | EAGAIN | ENOMEM

text \<open>
  The registers of the controller, by name. \<open>SPIFMT n\<close> is the address
  \<open>base + SPIFMT0 + 0x4 * n\<close> that \<open>set_fmt_bits\<close> and \<open>clear_fmt_bits\<close> compute.
\<close>

datatype reg =
    SPIGCR1 | SPIINT | SPIFLG | SPIPC0 | SPIDAT1 | SPIBUF | SPIDELAY | SPIDEF
  | SPIFMT u32

text \<open>
  The bit masks, shift counts and the version constant come from the headers
  davinci\_spi.h, mach/spi.h and linux/spi/spi.h, which are not part of the sources at
  hand. They are the fields of a parameter \<open>hw\<close> that every function below takes, and
  every theorem below holds for every choice of them.
\<close>

record spi_hw =
  SPI_VERSION_2 :: nat
  SPIFLG_TIMEOUT_MASK :: u32
  SPIFLG_DESYNC_MASK :: u32
  SPIFLG_BITERR_MASK :: u32
  SPIFLG_DLEN_ERR_MASK :: u32
  SPIFLG_PARERR_MASK :: u32
  SPIFLG_OVRRUN_MASK :: u32
  SPIFLG_TX_INTR_MASK :: u32
  SPIFLG_BUF_INIT_ACTIVE_MASK :: u32
  SPIFMT_CHARLEN_MASK :: u32
  SPIBUF_RXEMPTY_MASK :: u32
  SPIBUF_TXFULL_MASK :: u32
  SPIINT_MASKALL :: u32
  SPIINT_BITERR_INTR :: u32
  SPIINT_OVRRUN_INTR :: u32
  SPIINT_RX_INTR :: u32
  SPIINT_DMA_REQ_EN :: u32
  SPIGCR1_SPIENA_MASK :: u32
  SPIGCR1_LOOPBACK_MASK :: u32
  SPIPC0_DIFUN_MASK :: u32
  SPIPC0_DOFUN_MASK :: u32
  SPIPC0_CLKFUN_MASK :: u32
  SPIPC0_SPIENA_MASK :: u32
  SPI_C2TDELAY_SHIFT :: nat
  SPI_T2CDELAY_SHIFT :: nat
  SPIDAT1_CSHOLD_SHIFT :: nat
  SPIDAT1_CSNR_SHIFT :: nat
  SPI_NO_CS :: u8
  SPI_READY :: u8
  SPI_LOOP :: u8

subsection \<open>The environment: scripted answers and a trace\<close>

text \<open>
  What the surroundings hand back to the driver, in the order the driver asks:
  the value of a register read, the result of \<open>edma_alloc_channel\<close>, the bus address
  returned by \<open>dma_map_single\<close> together with the verdict of \<open>dma_mapping_error\<close> on
  it, and the return of a blocking wait.
\<close>

datatype input = RegVal u32 | ChanResult s32 | MapResult u32 bool | Woken

datatype arg = V u32 | Sym string

datatype event =
    IoRead reg u32
  | IoWrite reg u32
  | Dbg string
  | Call string "arg list"

subsection \<open>The structures of the driver\<close>

text \<open>The two function pointers \<open>get_rx\<close> and \<open>get_tx\<close>, as tags of the functions
  they can point to.\<close>

datatype rx_accessor = davinci_spi_rx_buf_u8_ptr | davinci_spi_rx_buf_u16_ptr
datatype tx_accessor = davinci_spi_tx_buf_u8_ptr | davinci_spi_tx_buf_u16_ptr

record davinci_spi_platform_data =
  c2tdelay :: u32
  t2cdelay :: u32
  cs_hold :: u32
  poll_mode :: u8

record davinci_spi_dma =
  dma_tx_channel :: s32
  dma_rx_channel :: s32
  dma_tx_sync_dev :: s32
  dma_rx_sync_dev :: s32
  eventq :: s32
  dma_tx_completion :: nat
  dma_rx_completion :: nat

text \<open>
  \<open>struct davinci_spi\<close>, followed by what the code reaches through it: the rate of its
  clock (\<open>clk_get_rate\<close>), the memory its buffer cursors point into, and the
  environment. A completion is its counter \<open>done\<close>: \<open>INIT_COMPLETION\<close> zeroes it and
  \<open>complete\<close> adds one. \<open>bytes_per_word\<close> is the field of that name in \<open>slave[]\<close>,
  indexed by chip select.
\<close>

record davinci_spi =
  version :: nat
  get_rx :: rx_accessor
  get_tx :: tx_accessor
  tx :: u32
  rx :: u32
  tmp_buf :: u32
  count :: s32
  speed :: u32
  cs_num :: u32
  in_use :: bool
  done_completion :: nat
  bytes_per_word :: "u8 \<Rightarrow> u8"
  dma_channels :: "u8 \<Rightarrow> davinci_spi_dma"
  pdata :: davinci_spi_platform_data
  clk_rate :: u32
  mem :: "u32 \<Rightarrow> u8"
  inputs :: "input list"
  trace :: "event list"

record spi_device =
  chip_select :: u8
  bits_per_word :: u8
  max_speed_hz :: u32
  mode :: u8

text \<open>\<open>struct spi_transfer\<close>; its field \<open>bits_per_word\<close> is \<open>t_bits_per_word\<close> here.
  A null buffer pointer is the address 0.\<close>

record spi_transfer =
  tx_buf :: u32
  rx_buf :: u32
  len :: u32
  t_bits_per_word :: u8
  speed_hz :: u32
  tx_dma :: u32
  rx_dma :: u32

subsection \<open>Outcomes of a call\<close>

text \<open>
  A call returns a value in a new state, or it never returns because the environment
  stops answering while the code waits (\<open>Stuck\<close>), or it divides by zero (\<open>Fault\<close>).
  The last two keep the state reached so far.
\<close>

datatype 'a outcome = Return 'a davinci_spi | Stuck davinci_spi | Fault davinci_spi

definition bnd :: "'a outcome \<Rightarrow> ('a \<Rightarrow> davinci_spi \<Rightarrow> 'b outcome) \<Rightarrow> 'b outcome" where
  "bnd m f = (case m of Return a s \<Rightarrow> f a s | Stuck s \<Rightarrow> Stuck s | Fault s \<Rightarrow> Fault s)"

fun state_of :: "'a outcome \<Rightarrow> davinci_spi" where
  "state_of (Return a s) = s"
| "state_of (Stuck s) = s"
| "state_of (Fault s) = s"

fun returns :: "'a outcome \<Rightarrow> bool" where
  "returns (Return a s) = True"
| "returns (Stuck s) = False"
| "returns (Fault s) = False"

fun value_of :: "'a outcome \<Rightarrow> 'a option" where
  "value_of (Return a s) = Some a"
| "value_of (Stuck s) = None"
| "value_of (Fault s) = None"

subsection \<open>Primitive effects\<close>

definition emit :: "event \<Rightarrow> davinci_spi \<Rightarrow> davinci_spi" where
  "emit e s = s\<lparr>trace := trace s @ [e]\<rparr>"

definition dev_dbg :: "string \<Rightarrow> davinci_spi \<Rightarrow> davinci_spi" where
  "dev_dbg msg s = emit (Dbg msg) s"

definition ioread32 :: "reg \<Rightarrow> davinci_spi \<Rightarrow> u32 outcome" where
  "ioread32 addr s =
     (case inputs s of
        RegVal v # rest \<Rightarrow> Return v (emit (IoRead addr v) (s\<lparr>inputs := rest\<rparr>))
      | _ \<Rightarrow> Stuck s)"

definition iowrite32 :: "u32 \<Rightarrow> reg \<Rightarrow> davinci_spi \<Rightarrow> unit outcome" where
  "iowrite32 v addr s = Return () (emit (IoWrite addr v) s)"

definition set_io_bits :: "reg \<Rightarrow> u32 \<Rightarrow> davinci_spi \<Rightarrow> unit outcome" where
  "set_io_bits addr bits s =
     bnd (ioread32 addr s) (\<lambda>v. iowrite32 (v OR bits) addr)"

definition clear_io_bits :: "reg \<Rightarrow> u32 \<Rightarrow> davinci_spi \<Rightarrow> unit outcome" where
  "clear_io_bits addr bits s =
     bnd (ioread32 addr s) (\<lambda>v. iowrite32 (v AND NOT bits) addr)"

definition set_fmt_bits :: "u32 \<Rightarrow> u32 \<Rightarrow> davinci_spi \<Rightarrow> unit outcome" where
  "set_fmt_bits bits cs s = set_io_bits (SPIFMT cs) bits s"

definition clear_fmt_bits :: "u32 \<Rightarrow> u32 \<Rightarrow> davinci_spi \<Rightarrow> unit outcome" where
  "clear_fmt_bits bits cs s = clear_io_bits (SPIFMT cs) bits s"

subsection \<open>davinci\_spi\_check\_error\<close>

definition davinci_spi_check_error ::
  "spi_hw \<Rightarrow> davinci_spi \<Rightarrow> u32 \<Rightarrow> (errno + unit) \<times> davinci_spi" where
  "davinci_spi_check_error hw s int_status =
     (if int_status AND SPIFLG_TIMEOUT_MASK hw \<noteq> 0 then
        (Inl ETIMEDOUT, dev_dbg ''SPI Time-out Error'' s)
      else if int_status AND SPIFLG_DESYNC_MASK hw \<noteq> 0 then
        (Inl EIO, dev_dbg ''SPI Desynchronization Error'' s)
      else if int_status AND SPIFLG_BITERR_MASK hw \<noteq> 0 then
        (Inl EIO, dev_dbg ''SPI Bit error'' s)
      else if version s > SPI_VERSION_2 hw then
        (if int_status AND SPIFLG_DLEN_ERR_MASK hw \<noteq> 0 then
           (Inl EIO, dev_dbg ''SPI Data Length Error'' s)
         else if int_status AND SPIFLG_PARERR_MASK hw \<noteq> 0 then
           (Inl EIO, dev_dbg ''SPI Parity Error'' s)
         else if int_status AND SPIFLG_OVRRUN_MASK hw \<noteq> 0 then
           (Inl EIO, dev_dbg ''SPI Data Overrun error'' s)
         else if int_status AND SPIFLG_TX_INTR_MASK hw \<noteq> 0 then
           (Inl EIO, dev_dbg ''SPI TX intr bit set'' s)
         else if int_status AND SPIFLG_BUF_INIT_ACTIVE_MASK hw \<noteq> 0 then
           (Inl EBUSY, dev_dbg ''SPI Buffer Init Active'' s)
         else (Inr (), s))
      else (Inr (), s))"

subsection \<open>Buffer accessors\<close>

text \<open>
  \<open>*rx++ = (u8)data\<close> and \<open>data = *tx++\<close>, for bytes and for halfwords. The cursor
  moves on every call. A halfword occupies two bytes, low byte first (the target is a
  little-endian ARM9).
\<close>

definition davinci_spi_rx_buf_u8 :: "u32 \<Rightarrow> davinci_spi \<Rightarrow> davinci_spi" where
  "davinci_spi_rx_buf_u8 data s =
     s\<lparr>mem := (mem s)(rx s := ucast data), rx := rx s + 1\<rparr>"

definition davinci_spi_rx_buf_u16 :: "u32 \<Rightarrow> davinci_spi \<Rightarrow> davinci_spi" where
  "davinci_spi_rx_buf_u16 data s =
     s\<lparr>mem := (mem s)(rx s := ucast data, rx s + 1 := ucast (drop_bit 8 data)),
       rx := rx s + 2\<rparr>"

definition davinci_spi_tx_buf_u8 :: "davinci_spi \<Rightarrow> u32 \<times> davinci_spi" where
  "davinci_spi_tx_buf_u8 s = (ucast (mem s (tx s)), s\<lparr>tx := tx s + 1\<rparr>)"

definition davinci_spi_tx_buf_u16 :: "davinci_spi \<Rightarrow> u32 \<times> davinci_spi" where
  "davinci_spi_tx_buf_u16 s =
     (ucast (mem s (tx s)) OR push_bit 8 (ucast (mem s (tx s + 1))), s\<lparr>tx := tx s + 2\<rparr>)"

text \<open>The indirect calls \<open>davinci_spi->get_rx(data, davinci_spi)\<close> and
  \<open>davinci_spi->get_tx(davinci_spi)\<close>.\<close>

definition call_get_rx :: "u32 \<Rightarrow> davinci_spi \<Rightarrow> davinci_spi" where
  "call_get_rx data s =
     (case get_rx s of
        davinci_spi_rx_buf_u8_ptr \<Rightarrow> davinci_spi_rx_buf_u8 data s
      | davinci_spi_rx_buf_u16_ptr \<Rightarrow> davinci_spi_rx_buf_u16 data s)"

definition call_get_tx :: "davinci_spi \<Rightarrow> u32 \<times> davinci_spi" where
  "call_get_tx s =
     (case get_tx s of
        davinci_spi_tx_buf_u8_ptr \<Rightarrow> davinci_spi_tx_buf_u8 s
      | davinci_spi_tx_buf_u16_ptr \<Rightarrow> davinci_spi_tx_buf_u16 s)"

subsection \<open>davinci\_spi\_calc\_clk\_div\<close>

text \<open>The value of the local \<open>prescale\<close> after the clamp to \<open>0xff\<close> and the
  conditional increment, and its final value after the floor of 2. All arithmetic is
  unsigned 32-bit.\<close>

definition prescale_before_floor :: "u32 \<Rightarrow> u32 \<Rightarrow> u32" where
  "prescale_before_floor clk hz =
     (let prescale = clk div hz - 1;
          prescale = (if prescale > 0xff then 0xff else prescale)
      in if hz < clk div (prescale + 1) then prescale + 1 else prescale)"

definition calc_prescale :: "u32 \<Rightarrow> u32 \<Rightarrow> u32" where
  "calc_prescale clk hz =
     (let prescale = prescale_before_floor clk hz
      in if prescale < 2 then 2 else prescale)"

definition davinci_spi_calc_clk_div :: "davinci_spi \<Rightarrow> unit outcome" where
  "davinci_spi_calc_clk_div s =
     (let cs = cs_num s; hz = speed s; clk = clk_rate s
      in if hz = 0 then Fault s
         else
           let s = (if prescale_before_floor clk hz < 2
                    then dev_dbg ''davinci SPI controller min. prescale value is 2'' s
                    else s)
           in bnd (clear_fmt_bits 0x0000ff00 cs s)
                (\<lambda>_. set_fmt_bits (push_bit 8 (calc_prescale clk hz)) cs))"

subsection \<open>davinci\_spi\_setup\_transfer\<close>

text \<open>The local \<open>bits_per_word\<close> after the default has been applied: the transfer's
  value if there is a transfer and its value is not zero, the device's otherwise.\<close>

definition transfer_bits_per_word :: "spi_device \<Rightarrow> spi_transfer option \<Rightarrow> u8" where
  "transfer_bits_per_word spi t =
     (let bpw = (case t of Some tr \<Rightarrow> t_bits_per_word tr | None \<Rightarrow> 0)
      in if bpw = 0 then bits_per_word spi else bpw)"

definition davinci_spi_setup_transfer ::
  "spi_hw \<Rightarrow> spi_device \<Rightarrow> spi_transfer option \<Rightarrow> davinci_spi \<Rightarrow> (errno + unit) outcome" where
  "davinci_spi_setup_transfer hw spi t s =
     (let bpw = transfer_bits_per_word spi t;
          hz = (case t of Some tr \<Rightarrow> speed_hz tr | None \<Rightarrow> 0);
          bound =
            (if bpw \<le> 8 \<and> bpw \<ge> 2 then
               Some (s\<lparr>get_rx := davinci_spi_rx_buf_u8_ptr,
                       get_tx := davinci_spi_tx_buf_u8_ptr,
                       bytes_per_word := (bytes_per_word s)(chip_select spi := 1)\<rparr>)
             else if bpw \<le> 16 \<and> bpw \<ge> 2 then
               Some (s\<lparr>get_rx := davinci_spi_rx_buf_u16_ptr,
                       get_tx := davinci_spi_tx_buf_u16_ptr,
                       bytes_per_word := (bytes_per_word s)(chip_select spi := 2)\<rparr>)
             else None)
      in case bound of
           None \<Rightarrow> Return (Inl EINVAL) s
         | Some s \<Rightarrow>
             let hz = (if hz = 0 then max_speed_hz spi else hz);
                 s = s\<lparr>speed := hz, cs_num := ucast (chip_select spi)\<rparr>
             in bnd (clear_fmt_bits (SPIFMT_CHARLEN_MASK hw) (ucast (chip_select spi)) s) (\<lambda>_ s.
                bnd (set_fmt_bits (ucast bpw AND 0x1f) (ucast (chip_select spi)) s) (\<lambda>_ s.
                bnd (davinci_spi_calc_clk_div s) (\<lambda>_ s.
                Return (Inr ()) s))))"

subsection \<open>davinci\_spi\_request\_dma\<close>

definition edma_alloc_channel ::
  "s32 \<Rightarrow> string \<Rightarrow> s32 \<Rightarrow> davinci_spi \<Rightarrow> s32 outcome" where
  "edma_alloc_channel channel callback eventq_no s =
     (case inputs s of
        ChanResult r # rest \<Rightarrow>
          Return r (emit (Call ''edma_alloc_channel'' [V channel, Sym callback, V eventq_no])
                      (s\<lparr>inputs := rest\<rparr>))
      | _ \<Rightarrow> Stuck s)"

definition edma_free_channel :: "s32 \<Rightarrow> davinci_spi \<Rightarrow> davinci_spi" where
  "edma_free_channel channel s = emit (Call ''edma_free_channel'' [V channel]) s"

definition davinci_spi_request_dma :: "spi_device \<Rightarrow> davinci_spi \<Rightarrow> (errno + unit) outcome" where
  "davinci_spi_request_dma spi s =
     (let cs = chip_select spi; d = dma_channels s cs
      in bnd (edma_alloc_channel (dma_rx_sync_dev d) ''davinci_spi_dma_rx_callback'' (eventq d) s)
           (\<lambda>r s.
              if r <s 0 then
                Return (Inl EAGAIN) (dev_dbg ''Unable to request DMA channel for SPI RX'' s)
              else
                let s = s\<lparr>dma_channels := (dma_channels s)
                            (cs := (dma_channels s cs)\<lparr>dma_rx_channel := r\<rparr>)\<rparr>;
                    d = dma_channels s cs
                in bnd (edma_alloc_channel (dma_tx_sync_dev d) ''davinci_spi_dma_tx_callback''
                          (eventq d) s)
                     (\<lambda>r s.
                        if r <s 0 then
                          let s = edma_free_channel (dma_rx_channel (dma_channels s cs)) s;
                              s = s\<lparr>dma_channels := (dma_channels s)
                                      (cs := (dma_channels s cs)\<lparr>dma_rx_channel := - 1\<rparr>)\<rparr>
                          in Return (Inl EAGAIN)
                               (dev_dbg ''Unable to request DMA channel for SPI TX'' s)
                        else
                          Return (Inr ())
                            (s\<lparr>dma_channels := (dma_channels s)
                                 (cs := (dma_channels s cs)\<lparr>dma_tx_channel := r\<rparr>)\<rparr>))))"

subsection \<open>davinci\_spi\_bufs\_prep\<close>

definition davinci_spi_bufs_prep ::
  "spi_hw \<Rightarrow> spi_device \<Rightarrow> davinci_spi \<Rightarrow> (errno + unit) outcome" where
  "davinci_spi_bufs_prep hw spi s =
     (let op_mode = SPIPC0_DIFUN_MASK hw OR SPIPC0_DOFUN_MASK hw OR SPIPC0_CLKFUN_MASK hw;
          op_mode = (if mode spi AND SPI_NO_CS hw = 0
                     then op_mode OR push_bit (unat (chip_select spi)) 1 else op_mode);
          op_mode = (if mode spi AND SPI_READY hw \<noteq> 0
                     then op_mode OR SPIPC0_SPIENA_MASK hw else op_mode)
      in bnd (iowrite32 op_mode SPIPC0 s) (\<lambda>_ s.
         bnd (if mode spi AND SPI_LOOP hw \<noteq> 0
              then set_io_bits SPIGCR1 (SPIGCR1_LOOPBACK_MASK hw) s
              else clear_io_bits SPIGCR1 (SPIGCR1_LOOPBACK_MASK hw) s) (\<lambda>_ s.
         Return (Inr ()) s)))"

subsection \<open>Busy-wait loops\<close>

text \<open>
  Each read of a register consumes one answer of the environment, so the length of the
  remaining script bounds every loop of the driver: a loop that is still waiting when
  the script ends has outcome \<open>Stuck\<close>.
\<close>

lemma bnd_cong [fundef_cong]:
  "m = m' \<Longrightarrow> (\<And>a s. m' = Return a s \<Longrightarrow> f a s = f' a s) \<Longrightarrow> bnd m f = bnd m' f'"
  by (simp add: bnd_def split: outcome.splits)

lemma ioread32_Return_inputs:
  "ioread32 addr s = Return v s' \<Longrightarrow> length (inputs s') < length (inputs s)"
  by (auto simp: ioread32_def emit_def split: list.splits input.splits)

lemma iowrite32_Return_inputs:
  "iowrite32 v addr s = Return x s' \<Longrightarrow> inputs s' = inputs s"
  by (auto simp: iowrite32_def emit_def)

lemma call_get_rx_inputs: "inputs (call_get_rx d s) = inputs s"
  by (simp add: call_get_rx_def davinci_spi_rx_buf_u8_def davinci_spi_rx_buf_u16_def
      split: rx_accessor.splits)

lemma call_get_tx_inputs: "call_get_tx s = (d, s') \<Longrightarrow> inputs s' = inputs s"
  by (auto simp: call_get_tx_def davinci_spi_tx_buf_u8_def davinci_spi_tx_buf_u16_def
      split: tx_accessor.splits)

text \<open>\<open>while (busy(ioread32(addr))) cpu_relax();\<close>\<close>

function spin_while :: "reg \<Rightarrow> (u32 \<Rightarrow> bool) \<Rightarrow> davinci_spi \<Rightarrow> unit outcome" where
  "spin_while addr busy s =
     bnd (ioread32 addr s) (\<lambda>v s. if busy v then spin_while addr busy s else Return () s)"
  by pat_completeness auto
termination
  by (relation "measure (\<lambda>(addr, busy, s). length (inputs s))")
    (auto dest: ioread32_Return_inputs)

declare spin_while.simps [simp del]

lemma spin_while_Return_inputs:
  "spin_while addr busy s = Return x s' \<Longrightarrow> length (inputs s') < length (inputs s)"
proof (induction addr busy s rule: spin_while.induct)
  case (1 addr busy s)
  from "1.prems" obtain v s1 where rd: "ioread32 addr s = Return v s1"
    and rest: "(if busy v then spin_while addr busy s1 else Return () s1) = Return x s'"
    by (subst (asm) spin_while.simps) (auto simp: bnd_def split: outcome.splits)
  have less: "length (inputs s1) < length (inputs s)"
    using rd by (rule ioread32_Return_inputs)
  show ?case
  proof (cases "busy v")
    case True
    with rest have "spin_while addr busy s1 = Return x s'" by simp
    with "1.IH" [OF rd True] have "length (inputs s') < length (inputs s1)" by simp
    with less show ?thesis by simp
  next
    case False
    with rest have "s' = s1" by simp
    with less show ?thesis by simp
  qed
qed

subsection \<open>The three transfer loops of davinci\_spi\_bufs\_pio\<close>

text \<open>The \<open>while (1)\<close> loop of the branch \<open>if (t->tx_buf)\<close>; \<open>cnt\<close> is the local
  \<open>int count\<close> (the name \<open>count\<close> is taken by the field of the structure).\<close>

function pio_tx_loop ::
  "spi_hw \<Rightarrow> spi_transfer \<Rightarrow> u32 \<Rightarrow> s32 \<Rightarrow> davinci_spi \<Rightarrow> unit outcome" where
  "pio_tx_loop hw t data1_reg_val cnt s =
     (case call_get_tx s of (tx_data, s) \<Rightarrow>
        let data1_reg_val = (data1_reg_val AND NOT 0xFFFF) OR (0xFFFF AND tx_data)
        in bnd (ioread32 SPIBUF s) (\<lambda>buf_val s.
           bnd (if buf_val AND SPIBUF_TXFULL_MASK hw = 0
                then bnd (iowrite32 data1_reg_val SPIDAT1 s) (\<lambda>_ s. Return (cnt - 1) s)
                else Return cnt s) (\<lambda>cnt s.
           bnd (spin_while SPIBUF (\<lambda>v. v AND SPIBUF_RXEMPTY_MASK hw \<noteq> 0) s) (\<lambda>_ s.
           bnd (if rx_buf t \<noteq> 0
                then bnd (ioread32 SPIBUF s) (\<lambda>buf_val s. Return () (call_get_rx buf_val s))
                else Return () s) (\<lambda>_ s.
           if cnt \<le>s 0 then Return () s
           else pio_tx_loop hw t data1_reg_val cnt s)))))"
  by pat_completeness auto
termination
proof (relation "measure (\<lambda>(hw, t, d, c, s). length (inputs s))", goal_cases)
  case 1
  show ?case by simp
next
  case (2 hw t d c s tx_data s0 d' buf_val s1 c' s2 u s3 u' s4)
  have "inputs s0 = inputs s"
    using 2(1) by (auto dest: call_get_tx_inputs [OF sym])
  moreover have "length (inputs s1) < length (inputs s0)"
    using 2(3) by (rule ioread32_Return_inputs)
  moreover have "inputs s2 = inputs s1"
    using 2(4) by (auto simp: bnd_def iowrite32_def emit_def split: if_splits)
  moreover have "length (inputs s3) < length (inputs s2)"
    using 2(5) by (rule spin_while_Return_inputs)
  moreover have "length (inputs s4) \<le> length (inputs s3)"
    using 2(6) by (auto simp: bnd_def call_get_rx_inputs split: if_splits outcome.splits
        dest!: ioread32_Return_inputs)
  ultimately show ?case by simp
qed

declare pio_tx_loop.simps [simp del]

text \<open>The \<open>while (1)\<close> loop of the receive-only branch with \<open>pdata->poll_mode\<close> set.\<close>

function pio_poll_loop :: "spi_hw \<Rightarrow> u32 \<Rightarrow> s32 \<Rightarrow> davinci_spi \<Rightarrow> unit outcome" where
  "pio_poll_loop hw data1_reg_val cnt s =
     bnd (ioread32 SPIBUF s) (\<lambda>v s.
     bnd (if v AND SPIBUF_TXFULL_MASK hw = 0
          then iowrite32 data1_reg_val SPIDAT1 s else Return () s) (\<lambda>_ s.
     bnd (spin_while SPIBUF (\<lambda>v. v AND SPIBUF_RXEMPTY_MASK hw \<noteq> 0) s) (\<lambda>_ s.
     bnd (ioread32 SPIFLG s) (\<lambda>flg_val s.
     bnd (ioread32 SPIBUF s) (\<lambda>buf_val s.
     let s = call_get_rx buf_val s; cnt = cnt - 1
     in if cnt \<le>s 0 then Return () s
        else pio_poll_loop hw data1_reg_val cnt s)))))"
  by pat_completeness auto
termination
proof (relation "measure (\<lambda>(hw, d, c, s). length (inputs s))", goal_cases)
  case 1
  show ?case by simp
next
  case (2 hw d c s v s1 u s2 u' s3 flg_val s4 buf_val s5 s6 c')
  have "length (inputs s1) < length (inputs s)"
    using 2(1) by (rule ioread32_Return_inputs)
  moreover have "inputs s2 = inputs s1"
    using 2(2) by (auto simp: iowrite32_def emit_def split: if_splits)
  moreover have "length (inputs s3) < length (inputs s2)"
    using 2(3) by (rule spin_while_Return_inputs)
  moreover have "length (inputs s4) < length (inputs s3)"
    using 2(4) by (rule ioread32_Return_inputs)
  moreover have "length (inputs s5) < length (inputs s4)"
    using 2(5) by (rule ioread32_Return_inputs)
  moreover have "inputs s6 = inputs s5"
    using 2(6) by (simp add: call_get_rx_inputs)
  ultimately show ?case by simp
qed

declare pio_poll_loop.simps [simp del]

text \<open>The \<open>for (i = 0; i < davinci_spi->count; i++)\<close> loop of the receive-only branch
  in interrupt mode.\<close>

function pio_irq_loop :: "spi_hw \<Rightarrow> u32 \<Rightarrow> s32 \<Rightarrow> davinci_spi \<Rightarrow> unit outcome" where
  "pio_irq_loop hw data1_reg_val i s =
     (if i <s count s then
        bnd (set_io_bits SPIINT
               (SPIINT_BITERR_INTR hw OR SPIINT_OVRRUN_INTR hw OR SPIINT_RX_INTR hw) s) (\<lambda>_ s.
        bnd (iowrite32 data1_reg_val SPIDAT1 s) (\<lambda>_ s.
        bnd (spin_while SPIINT (\<lambda>v. v AND SPIINT_RX_INTR hw \<noteq> 0) s) (\<lambda>_ s.
        pio_irq_loop hw data1_reg_val (i + 1) s)))
      else Return () s)"
  by pat_completeness auto
termination
proof (relation "measure (\<lambda>(hw, d, i, s). length (inputs s))", goal_cases)
  case 1
  show ?case by simp
next
  case (2 hw d i s u s1 u' s2 u'' s3)
  have "length (inputs s1) \<le> length (inputs s)"
    using 2(2) by (auto simp: set_io_bits_def bnd_def iowrite32_def emit_def
        split: outcome.splits dest!: ioread32_Return_inputs)
  moreover have "inputs s2 = inputs s1"
    using 2(3) by (rule iowrite32_Return_inputs)
  moreover have "length (inputs s3) < length (inputs s2)"
    using 2(4) by (rule spin_while_Return_inputs)
  ultimately show ?case by simp
qed

declare pio_irq_loop.simps [simp del]

subsection \<open>davinci\_spi\_bufs\_pio\<close>

text \<open>The statements from \<open>set_io_bits(davinci_spi->base + SPIGCR1, ...)\<close> to the call
  of \<open>davinci_spi_check_error\<close>; the value is \<open>ret\<close> as the label \<open>out\<close> finds it.\<close>

definition pio_transfer ::
  "spi_hw \<Rightarrow> spi_device \<Rightarrow> spi_transfer \<Rightarrow> davinci_spi \<Rightarrow> (errno + unit) outcome" where
  "pio_transfer hw spi t s =
     bnd (set_io_bits SPIGCR1 (SPIGCR1_SPIENA_MASK hw) s) (\<lambda>_ s.
     bnd (iowrite32 (0 OR push_bit (SPI_C2TDELAY_SHIFT hw) (c2tdelay (pdata s))
                       OR push_bit (SPI_T2CDELAY_SHIFT hw) (t2cdelay (pdata s)))
            SPIDELAY s) (\<lambda>_ s.
     let cnt = count s;
         data1_reg_val = push_bit (SPIDAT1_CSHOLD_SHIFT hw) (cs_hold (pdata s));
         tmp = (NOT (push_bit (unat (chip_select spi)) 1) :: u8)
     in
     bnd (clear_io_bits SPIDEF (NOT (ucast tmp)) s) (\<lambda>_ s.
     let data1_reg_val = data1_reg_val OR push_bit (SPIDAT1_CSNR_SHIFT hw) (ucast tmp)
     in
     bnd (spin_while SPIBUF (\<lambda>v. v AND SPIBUF_RXEMPTY_MASK hw = 0) s) (\<lambda>_ s.
     bnd (if tx_buf t \<noteq> 0 then
            bnd (clear_io_bits SPIINT (SPIINT_MASKALL hw) s) (\<lambda>_ s.
            pio_tx_loop hw t data1_reg_val cnt s)
          else if poll_mode (pdata s) \<noteq> 0 then
            pio_poll_loop hw data1_reg_val cnt s
          else
            bnd (pio_irq_loop hw data1_reg_val 0 s) (\<lambda>_ s.
            iowrite32 (data1_reg_val AND 0x0ffcffff) SPIDAT1 s)) (\<lambda>_ s.
     bnd (ioread32 SPIFLG s) (\<lambda>int_status s.
     case davinci_spi_check_error hw s int_status of (ret, s) \<Rightarrow> Return ret s))))))"

definition davinci_spi_bufs_pio ::
  "spi_hw \<Rightarrow> spi_device \<Rightarrow> spi_transfer \<Rightarrow> davinci_spi \<Rightarrow> (errno + u32) outcome" where
  "davinci_spi_bufs_pio hw spi t s =
     (let s = s\<lparr>tx := tx_buf t, rx := rx_buf t\<rparr>;
          conv = bytes_per_word s (chip_select spi)
      in if conv = 0 then Fault s
         else
           let s = s\<lparr>count := len t div ucast conv\<rparr>
           in bnd (davinci_spi_bufs_prep hw spi s) (\<lambda>ret s.
              case ret of
                Inl e \<Rightarrow> Return (Inl e) s
              | Inr _ \<Rightarrow>
                  let s = s\<lparr>done_completion := 0\<rparr>;
                      s = s\<lparr>in_use := True\<rparr>
                  in bnd (pio_transfer hw spi t s) (\<lambda>ret s.
                     let s = (case ret of
                                Inr _ \<Rightarrow> s\<lparr>count := count s * ucast conv\<rparr>
                              | Inl _ \<Rightarrow> s);
                         s = s\<lparr>in_use := False\<rparr>;
                         s = s\<lparr>done_completion := done_completion s + 1\<rparr>
                     in Return (case ret of Inl e \<Rightarrow> Inl e | Inr _ \<Rightarrow> Inr (len t)) s)))"

subsection \<open>davinci\_spi\_bufs\_dma\<close>

text \<open>
  Calls into the DMA layer. \<open>dma_map_single\<close> and the blocking wait take their result
  from the environment; the others only leave their name and arguments in the trace,
  with the constants of other headers kept as symbols. The completion callbacks run in
  interrupt context, outside the call that is modelled here.
\<close>

definition extern_call :: "string \<Rightarrow> arg list \<Rightarrow> davinci_spi \<Rightarrow> davinci_spi" where
  "extern_call name args s = emit (Call name args) s"

definition dma_map_single ::
  "u32 \<Rightarrow> s32 \<Rightarrow> string \<Rightarrow> davinci_spi \<Rightarrow> (u32 \<times> bool) outcome" where
  "dma_map_single ptr sz dir s =
     (case inputs s of
        MapResult a err # rest \<Rightarrow>
          Return (a, err) (emit (Call ''dma_map_single'' [V ptr, V sz, Sym dir])
                             (s\<lparr>inputs := rest\<rparr>))
      | _ \<Rightarrow> Stuck s)"

definition dma_unmap_single :: "u32 \<Rightarrow> s32 \<Rightarrow> string \<Rightarrow> davinci_spi \<Rightarrow> davinci_spi" where
  "dma_unmap_single a sz dir s = extern_call ''dma_unmap_single'' [V a, V sz, Sym dir] s"

definition wait_for_completion_interruptible :: "string \<Rightarrow> davinci_spi \<Rightarrow> unit outcome" where
  "wait_for_completion_interruptible c s =
     (case inputs s of
        Woken # rest \<Rightarrow>
          Return () (emit (Call ''wait_for_completion_interruptible'' [Sym c])
                       (s\<lparr>inputs := rest\<rparr>))
      | _ \<Rightarrow> Stuck s)"

definition davinci_spi_set_dma_req :: "spi_hw \<Rightarrow> bool \<Rightarrow> davinci_spi \<Rightarrow> unit outcome" where
  "davinci_spi_set_dma_req hw enable s =
     (if enable then set_io_bits SPIINT (SPIINT_DMA_REQ_EN hw) s
      else clear_io_bits SPIINT (SPIINT_DMA_REQ_EN hw) s)"

text \<open>The receive half of the channel programming: the block \<open>if (t->rx_buf)\<close> that maps
  the receive buffer. Its first result is an error that leaves for the label \<open>out\<close>.\<close>

definition dma_setup_rx ::
  "spi_transfer \<Rightarrow> u32 \<Rightarrow> s32 \<Rightarrow> s32 \<Rightarrow> u32 \<Rightarrow> davinci_spi
     \<Rightarrow> (errno option \<times> spi_transfer) outcome" where
  "dma_setup_rx t data1_reg_val cnt rx_ch data_type s =
     bnd (iowrite32 data1_reg_val SPIDAT1 s) (\<lambda>_ s.
     bnd (dma_map_single (rx_buf t) cnt ''DMA_FROM_DEVICE'' s) (\<lambda>(a, err) s.
     let t = t\<lparr>rx_dma := a\<rparr>
     in if err then
          let s = dev_dbg ''Couldn't DMA map a %d bytes RX buffer'' s;
              s = (if tx_buf t \<noteq> 0
                   then dma_unmap_single (tx_dma t) cnt ''DMA_TO_DEVICE'' s else s)
          in Return (Some ENOMEM, t) s
        else
          let s = extern_call ''edma_set_transfer_params''
                    [V rx_ch, V data_type, V cnt, V 1, V 0, Sym ''ASYNC''] s;
              s = extern_call ''edma_set_src''
                    [V rx_ch, Sym ''rx_reg'', Sym ''INCR'', Sym ''W8BIT''] s;
              s = extern_call ''edma_set_dest''
                    [V rx_ch, V (rx_dma t), Sym ''INCR'', Sym ''W8BIT''] s;
              s = extern_call ''edma_set_src_index'' [V rx_ch, V 0, V 0] s;
              s = extern_call ''edma_set_dest_index'' [V rx_ch, V data_type, V 0] s
          in Return (None, t) s))"

text \<open>The transmit half: the mapping of the transmit buffer, or of \<open>tmp_buf\<close> when
  there is none, and the programming of the TX channel. The result is \<open>temp_count\<close>, or
  the error that leaves for the label \<open>out\<close>.\<close>

definition dma_setup_tx ::
  "spi_transfer \<Rightarrow> s32 \<Rightarrow> s32 \<Rightarrow> u32 \<Rightarrow> davinci_spi
     \<Rightarrow> ((errno + s32) \<times> spi_transfer) outcome" where
  "dma_setup_tx t cnt tx_ch data_type s =
     bnd (if tx_buf t \<noteq> 0
          then dma_map_single (tx_buf t) cnt ''DMA_TO_DEVICE'' s
          else dma_map_single (tmp_buf s) (cnt + 1) ''DMA_TO_DEVICE'' s) (\<lambda>(a, err) s.
     let t = t\<lparr>tx_dma := a\<rparr>
     in if err then
          Return (Inl ENOMEM, t)
            (dev_dbg (if tx_buf t \<noteq> 0 then ''Unable to DMA map a %d bytes TX buffer''
                      else ''Unable to DMA map a %d bytes TX tmp buffer'') s)
        else
          let temp_count = (if tx_buf t \<noteq> 0 then cnt else cnt + 1);
              s = extern_call ''edma_set_transfer_params''
                    [V tx_ch, V data_type, V temp_count, V 1, V 0, Sym ''ASYNC''] s;
              s = extern_call ''edma_set_dest''
                    [V tx_ch, Sym ''tx_reg'', Sym ''INCR'', Sym ''W8BIT''] s;
              s = extern_call ''edma_set_src''
                    [V tx_ch, V (tx_dma t), Sym ''INCR'', Sym ''W8BIT''] s;
              s = extern_call ''edma_set_src_index'' [V tx_ch, V data_type, V 0] s;
              s = extern_call ''edma_set_dest_index'' [V tx_ch, V 0, V 0] s
          in Return (Inr temp_count, t) s)"

text \<open>The statements before the mappings: delays, chip select, interrupts off, the
  command word primed with the controller disabled, and the wait for an empty receive
  buffer. The result is \<open>data1_reg_val\<close>.\<close>

definition dma_prime :: "spi_hw \<Rightarrow> spi_device \<Rightarrow> davinci_spi \<Rightarrow> u32 outcome" where
  "dma_prime hw spi s =
     bnd (iowrite32 (0 OR push_bit (SPI_C2TDELAY_SHIFT hw) (c2tdelay (pdata s))
                       OR push_bit (SPI_T2CDELAY_SHIFT hw) (t2cdelay (pdata s)))
            SPIDELAY s) (\<lambda>_ s.
     let data1_reg_val = push_bit (SPIDAT1_CSHOLD_SHIFT hw) (cs_hold (pdata s));
         tmp = (NOT (push_bit (unat (chip_select spi)) 1) :: u8)
     in
     bnd (clear_io_bits SPIDEF (NOT (ucast tmp)) s) (\<lambda>_ s.
     let data1_reg_val = data1_reg_val OR push_bit (SPIDAT1_CSNR_SHIFT hw) (ucast tmp)
     in
     bnd (clear_io_bits SPIINT (SPIINT_MASKALL hw) s) (\<lambda>_ s.
     bnd (clear_io_bits SPIGCR1 (SPIGCR1_SPIENA_MASK hw) s) (\<lambda>_ s.
     bnd (iowrite32 data1_reg_val SPIDAT1 s) (\<lambda>_ s.
     bnd (set_io_bits SPIGCR1 (SPIGCR1_SPIENA_MASK hw) s) (\<lambda>_ s.
     bnd (spin_while SPIBUF (\<lambda>v. v AND SPIBUF_RXEMPTY_MASK hw = 0) s) (\<lambda>_ s.
     Return data1_reg_val s)))))))"

text \<open>The statements after the channel programming: start of the channels, the DMA
  request, the two waits, the unmapping, and the classification of the status.\<close>

definition dma_run ::
  "spi_hw \<Rightarrow> spi_transfer \<Rightarrow> s32 \<Rightarrow> s32 \<Rightarrow> s32 \<Rightarrow> s32 \<Rightarrow> davinci_spi
     \<Rightarrow> (errno + unit) outcome" where
  "dma_run hw t cnt temp_count tx_ch rx_ch s =
     (let s = (if tx_buf t \<noteq> 0 \<or> rx_buf t \<noteq> 0
               then extern_call ''edma_start'' [V tx_ch] s else s);
          s = (if rx_buf t \<noteq> 0 then extern_call ''edma_start'' [V rx_ch] s else s)
      in
      bnd (if rx_buf t \<noteq> 0 \<or> tx_buf t \<noteq> 0
           then davinci_spi_set_dma_req hw True s else Return () s) (\<lambda>_ s.
      bnd (if tx_buf t \<noteq> 0
           then wait_for_completion_interruptible ''dma_tx_completion'' s
           else Return () s) (\<lambda>_ s.
      bnd (if rx_buf t \<noteq> 0
           then wait_for_completion_interruptible ''dma_rx_completion'' s
           else Return () s) (\<lambda>_ s.
      let s = dma_unmap_single (tx_dma t) temp_count ''DMA_TO_DEVICE'' s;
          s = (if rx_buf t \<noteq> 0
               then dma_unmap_single (rx_dma t) cnt ''DMA_FROM_DEVICE'' s else s)
      in
      bnd (ioread32 SPIFLG s) (\<lambda>int_status s.
      case davinci_spi_check_error hw s int_status of (ret, s) \<Rightarrow> Return ret s)))))"

text \<open>The statements of \<open>davinci_spi_bufs_dma\<close> from the write of \<open>SPIDELAY\<close> to the call
  of \<open>davinci_spi_check_error\<close>, in the order of the source; every \<open>goto out\<close> is a
  return with the \<open>ret\<close> set for it.\<close>

definition dma_transfer ::
  "spi_hw \<Rightarrow> spi_device \<Rightarrow> spi_transfer \<Rightarrow> u32 \<Rightarrow> davinci_spi
     \<Rightarrow> ((errno + unit) \<times> spi_transfer) outcome" where
  "dma_transfer hw spi t data_type s =
     (let cnt = count s;
          tx_ch = dma_tx_channel (dma_channels s (chip_select spi));
          rx_ch = dma_rx_channel (dma_channels s (chip_select spi))
      in
      bnd (dma_prime hw spi s) (\<lambda>data1_reg_val s.
      bnd (dma_setup_tx t cnt tx_ch data_type s) (\<lambda>(r, t) s.
      case r of
        Inl e \<Rightarrow> Return (Inl e, t) s
      | Inr temp_count \<Rightarrow>
          bnd (if rx_buf t \<noteq> 0 then dma_setup_rx t data1_reg_val cnt rx_ch data_type s
               else Return (None, t) s) (\<lambda>(early, t) s.
          case early of
            Some e \<Rightarrow> Return (Inl e, t) s
          | None \<Rightarrow>
              bnd (dma_run hw t cnt temp_count tx_ch rx_ch s) (\<lambda>ret s.
              Return (ret, t) s)))))"

definition davinci_spi_bufs_dma ::
  "spi_hw \<Rightarrow> spi_device \<Rightarrow> spi_transfer \<Rightarrow> davinci_spi
     \<Rightarrow> ((errno + u32) \<times> spi_transfer) outcome" where
  "davinci_spi_bufs_dma hw spi t s =
     (let cs = chip_select spi;
          s = s\<lparr>tx := tx_buf t, rx := rx_buf t\<rparr>;
          conv = bytes_per_word s cs
      in if conv = 0 then Fault s
         else
           let s = s\<lparr>count := len t div ucast conv\<rparr>;
               s = s\<lparr>dma_channels := (dma_channels s)
                       (cs := (dma_channels s cs)\<lparr>dma_rx_completion := 0\<rparr>)\<rparr>;
               s = s\<lparr>dma_channels := (dma_channels s)
                       (cs := (dma_channels s cs)\<lparr>dma_tx_completion := 0\<rparr>)\<rparr>;
               word_len = unat conv * 8;
               data_type = (if word_len \<le> 8 then Some 0x01
                            else if word_len \<le> 16 then Some 0x02
                            else if word_len \<le> 32 then Some 0x04
                            else None)
           in case data_type of
                None \<Rightarrow> Return (Inl EINVAL, t) s
              | Some data_type \<Rightarrow>
                  bnd (davinci_spi_bufs_prep hw spi s) (\<lambda>ret s.
                  case ret of
                    Inl e \<Rightarrow> Return (Inl EINVAL, t) s
                  | Inr _ \<Rightarrow>
                      let s = s\<lparr>done_completion := 0\<rparr>;
                          s = s\<lparr>in_use := True\<rparr>
                      in bnd (dma_transfer hw spi t data_type s) (\<lambda>(ret, t) s.
                         let s = (case ret of
                                    Inr _ \<Rightarrow> s\<lparr>count := count s * ucast conv\<rparr>
                                  | Inl _ \<Rightarrow> s);
                             s = s\<lparr>in_use := False\<rparr>;
                             s = s\<lparr>done_completion := done_completion s + 1\<rparr>
                         in Return ((case ret of Inl e \<Rightarrow> Inl e | Inr _ \<Rightarrow> Inr (len t)), t)
                              s)))"

subsection \<open>The error classification as a priority table\<close>

text \<open>
  A second reading of the classifier, taken from its description rather than from its
  code: the conditions in their order of priority, each with its diagnostic and its
  code, and "the first match wins".
\<close>

definition spiflg_priority :: "spi_hw \<Rightarrow> (u32 \<times> string \<times> errno) list" where
  "spiflg_priority hw =
     [(SPIFLG_TIMEOUT_MASK hw, ''SPI Time-out Error'', ETIMEDOUT),
      (SPIFLG_DESYNC_MASK hw, ''SPI Desynchronization Error'', EIO),
      (SPIFLG_BITERR_MASK hw, ''SPI Bit error'', EIO),
      (SPIFLG_DLEN_ERR_MASK hw, ''SPI Data Length Error'', EIO),
      (SPIFLG_PARERR_MASK hw, ''SPI Parity Error'', EIO),
      (SPIFLG_OVRRUN_MASK hw, ''SPI Data Overrun error'', EIO),
      (SPIFLG_TX_INTR_MASK hw, ''SPI TX intr bit set'', EIO),
      (SPIFLG_BUF_INIT_ACTIVE_MASK hw, ''SPI Buffer Init Active'', EBUSY)]"

fun first_match :: "u32 \<Rightarrow> (u32 \<times> string \<times> errno) list \<Rightarrow> (string \<times> errno) option" where
  "first_match st [] = None"
| "first_match st ((m, msg, e) # rest) =
     (if st AND m \<noteq> 0 then Some (msg, e) else first_match st rest)"

fun report :: "(string \<times> errno) option \<Rightarrow> davinci_spi \<Rightarrow> (errno + unit) \<times> davinci_spi" where
  "report None s = (Inr (), s)"
| "report (Some (msg, e)) s = (Inl e, dev_dbg msg s)"

text \<open>The masks of the seven hardware-flagged conditions other than the timeout, and
  the ones among them that a status word has set.\<close>

definition condition_masks :: "spi_hw \<Rightarrow> u32 list" where
  "condition_masks hw =
     [SPIFLG_DESYNC_MASK hw, SPIFLG_BITERR_MASK hw, SPIFLG_DLEN_ERR_MASK hw,
      SPIFLG_PARERR_MASK hw, SPIFLG_OVRRUN_MASK hw, SPIFLG_TX_INTR_MASK hw,
      SPIFLG_BUF_INIT_ACTIVE_MASK hw]"

definition conditions_set :: "spi_hw \<Rightarrow> u32 \<Rightarrow> u32 list" where
  "conditions_set hw st = filter (\<lambda>m. st AND m \<noteq> 0) (condition_masks hw)"

subsection \<open>Observations on a trace\<close>

text \<open>\<open>s'\<close> differs from \<open>s\<close> at most in the two buffer cursors, the memory behind
  them, and the environment: every other field of the structure is the same.\<close>

definition xfer_only :: "davinci_spi \<Rightarrow> davinci_spi \<Rightarrow> bool" where
  "xfer_only s s' \<longleftrightarrow>
     s' = s\<lparr>tx := tx s', rx := rx s', mem := mem s', inputs := inputs s', trace := trace s'\<rparr>"

fun is_dat1_write :: "event \<Rightarrow> bool" where
  "is_dat1_write (IoWrite SPIDAT1 v) = True"
| "is_dat1_write e = False"

fun is_write :: "event \<Rightarrow> bool" where
  "is_write (IoWrite r v) = True"
| "is_write e = False"

text \<open>The command words written to \<open>SPIDAT1\<close> so far, in order: each of them
  starts the exchange of one word on the wire.\<close>

definition dat1_writes :: "davinci_spi \<Rightarrow> event list" where
  "dat1_writes s = filter is_dat1_write (trace s)"

text \<open>The number of bytes by which one call through \<open>get_rx\<close> moves the receive
  cursor.\<close>

definition rx_step :: "davinci_spi \<Rightarrow> u32" where
  "rx_step s =
     (case get_rx s of davinci_spi_rx_buf_u8_ptr \<Rightarrow> 1 | davinci_spi_rx_buf_u16_ptr \<Rightarrow> 2)"

text \<open>\<open>s'\<close> is \<open>s\<close> after some exchange with the environment that wrote nothing to
  \<open>SPIDAT1\<close>.\<close>

definition quiet :: "davinci_spi \<Rightarrow> davinci_spi \<Rightarrow> bool" where
  "quiet s s' \<longleftrightarrow>
     s' = s\<lparr>inputs := inputs s', trace := trace s'\<rparr> \<and> dat1_writes s' = dat1_writes s"

text \<open>Partial correctness of a call: \<open>Q\<close> holds of the value and the state of every
  return.\<close>

definition post :: "'a outcome \<Rightarrow> ('a \<Rightarrow> davinci_spi \<Rightarrow> bool) \<Rightarrow> bool" where
  "post m Q \<longleftrightarrow> (\<forall>a s. m = Return a s \<longrightarrow> Q a s)"

subsection \<open>Concrete inputs\<close>

text \<open>
  One assignment of the constants, with every flag on a bit of its own as in the
  register description of the DaVinci SPI module, and a controller state as
  \<open>davinci_spi_probe\<close> leaves it, on a 150 MHz module clock. They serve to run the
  definitions on concrete inputs.
\<close>

definition davinci_hw :: spi_hw where
  "davinci_hw =
     \<lparr>SPI_VERSION_2 = 1,
      SPIFLG_TIMEOUT_MASK = 0x2, SPIFLG_DESYNC_MASK = 0x8, SPIFLG_BITERR_MASK = 0x10,
      SPIFLG_DLEN_ERR_MASK = 0x1, SPIFLG_PARERR_MASK = 0x4, SPIFLG_OVRRUN_MASK = 0x40,
      SPIFLG_TX_INTR_MASK = 0x200, SPIFLG_BUF_INIT_ACTIVE_MASK = 0x1000000,
      SPIFMT_CHARLEN_MASK = 0x1f,
      SPIBUF_RXEMPTY_MASK = 0x80000000, SPIBUF_TXFULL_MASK = 0x20000000,
      SPIINT_MASKALL = 0x0101035F, SPIINT_BITERR_INTR = 0x10, SPIINT_OVRRUN_INTR = 0x40,
      SPIINT_RX_INTR = 0x100, SPIINT_DMA_REQ_EN = 0x10000,
      SPIGCR1_SPIENA_MASK = 0x1000000, SPIGCR1_LOOPBACK_MASK = 0x10000,
      SPIPC0_DIFUN_MASK = 0x800, SPIPC0_DOFUN_MASK = 0x400, SPIPC0_CLKFUN_MASK = 0x200,
      SPIPC0_SPIENA_MASK = 0x100,
      SPI_C2TDELAY_SHIFT = 24, SPI_T2CDELAY_SHIFT = 16,
      SPIDAT1_CSHOLD_SHIFT = 28, SPIDAT1_CSNR_SHIFT = 16,
      SPI_NO_CS = 0x40, SPI_READY = 0x80, SPI_LOOP = 0x20\<rparr>"

definition unallocated :: davinci_spi_dma where
  "unallocated =
     \<lparr>dma_tx_channel = - 1, dma_rx_channel = - 1, dma_tx_sync_dev = 17,
      dma_rx_sync_dev = 16, eventq = 0, dma_tx_completion = 0, dma_rx_completion = 0\<rparr>"

definition probed :: davinci_spi where
  "probed =
     \<lparr>version = 1,
      get_rx = davinci_spi_rx_buf_u8_ptr, get_tx = davinci_spi_tx_buf_u8_ptr,
      tx = 0, rx = 0, tmp_buf = 0x8000, count = 0, speed = 0, cs_num = 0,
      in_use = False, done_completion = 0,
      bytes_per_word = (\<lambda>cs. 0),
      dma_channels = (\<lambda>cs. unallocated),
      pdata = \<lparr>c2tdelay = 0, t2cdelay = 0, cs_hold = 0, poll_mode = 0\<rparr>,
      clk_rate = 150000000,
      mem = (\<lambda>a. 0),
      inputs = [],
      trace = []\<rparr>"

definition spi0 :: spi_device where
  "spi0 = \<lparr>chip_select = 0, bits_per_word = 8, max_speed_hz = 1000000, mode = 0\<rparr>"

text \<open>A transfer of two bytes from address \<open>0x1000\<close>, a controller set up for 8-bit
  words on chip select 0 with the bytes \<open>0x12 0x34 0x56\<close> in memory from that address
  on, and a run of the PIO engine in which the transmit FIFO is full at the first
  attempt to write.\<close>

definition xfer_tx2 :: spi_transfer where
  "xfer_tx2 =
     \<lparr>tx_buf = 0x1000, rx_buf = 0, len = 2, t_bits_per_word = 8, speed_hz = 0,
      tx_dma = 0, rx_dma = 0\<rparr>"

definition ready8 :: davinci_spi where
  "ready8 =
     probed\<lparr>bytes_per_word := (\<lambda>cs. 1),
            mem := (\<lambda>a. 0)(0x1000 := 0x12, 0x1001 := 0x34, 0x1002 := 0x56)\<rparr>"

definition fifo_full_run :: "(errno + u32) outcome" where
  "fifo_full_run =
     davinci_spi_bufs_pio davinci_hw spi0 xfer_tx2
       (ready8\<lparr>inputs := map RegVal
          [0, 0, 0, 0x80000000, 0, 0x20000000, 0, 0, 0, 0, 0, 0]\<rparr>)"

text \<open>Two more runs: a DMA transfer whose transmit buffer cannot be mapped, and a PIO
  transfer after which the status register shows a bit error.\<close>

definition dma_fail_run :: "((errno + u32) \<times> spi_transfer) outcome" where
  "dma_fail_run =
     davinci_spi_bufs_dma davinci_hw spi0 xfer_tx2
       (ready8\<lparr>inputs :=
          [RegVal 0, RegVal 0, RegVal 0, RegVal 0, RegVal 0, RegVal 0x80000000,
           MapResult 0 True]\<rparr>)"

definition bit_error_run :: "(errno + u32) outcome" where
  "bit_error_run =
     davinci_spi_bufs_pio davinci_hw spi0 xfer_tx2
       (ready8\<lparr>inputs := map RegVal [0, 0, 0, 0x80000000, 0, 0, 0, 0, 0, 0x10]\<rparr>)"

text \<open>
  A controller set up for 16-bit words, and PIO transfers on it whose length is not a
  whole number of words. First a single byte: to send, to receive by polling, and to
  receive by interrupt. Then three bytes: to send, to receive by polling, to receive by
  interrupt, and to send with the transmit FIFO full at the first attempt.
\<close>

definition ready16 :: davinci_spi where
  "ready16 =
     probed\<lparr>get_rx := davinci_spi_rx_buf_u16_ptr, get_tx := davinci_spi_tx_buf_u16_ptr,
            bytes_per_word := (\<lambda>cs. 2),
            mem := (\<lambda>a. 0)(0x1000 := 0x12, 0x1001 := 0x34)\<rparr>"

definition xfer_short :: spi_transfer where
  "xfer_short =
     \<lparr>tx_buf = 0x1000, rx_buf = 0, len = 1, t_bits_per_word = 16, speed_hz = 0,
      tx_dma = 0, rx_dma = 0\<rparr>"

definition short_run :: "(errno + u32) outcome" where
  "short_run =
     davinci_spi_bufs_pio davinci_hw spi0 xfer_short
       (ready16\<lparr>inputs := map RegVal [0, 0, 0, 0x80000000, 0, 0, 0, 0]\<rparr>)"

definition short_poll_run :: "(errno + u32) outcome" where
  "short_poll_run =
     davinci_spi_bufs_pio davinci_hw spi0 (xfer_short\<lparr>tx_buf := 0, rx_buf := 0x2000\<rparr>)
       (ready16\<lparr>pdata := \<lparr>c2tdelay = 0, t2cdelay = 0, cs_hold = 0, poll_mode = 1\<rparr>,
          inputs := map RegVal [0, 0, 0, 0x80000000, 0, 0, 0, 0xBEEF, 0]\<rparr>)"

definition short_irq_run :: "(errno + u32) outcome" where
  "short_irq_run =
     davinci_spi_bufs_pio davinci_hw spi0 (xfer_short\<lparr>tx_buf := 0, rx_buf := 0x2000\<rparr>)
       (ready16\<lparr>inputs := map RegVal [0, 0, 0, 0x80000000, 0]\<rparr>)"

definition odd_tx_run :: "(errno + u32) outcome" where
  "odd_tx_run =
     davinci_spi_bufs_pio davinci_hw spi0 (xfer_short\<lparr>len := 3\<rparr>)
       (ready16\<lparr>inputs := map RegVal [0, 0, 0, 0x80000000, 0, 0, 0, 0]\<rparr>)"

definition odd_poll_run :: "(errno + u32) outcome" where
  "odd_poll_run =
     davinci_spi_bufs_pio davinci_hw spi0 (xfer_short\<lparr>tx_buf := 0, rx_buf := 0x2000, len := 3\<rparr>)
       (ready16\<lparr>pdata := \<lparr>c2tdelay = 0, t2cdelay = 0, cs_hold = 0, poll_mode = 1\<rparr>,
          inputs := map RegVal [0, 0, 0, 0x80000000, 0, 0, 0, 0xBEEF, 0]\<rparr>)"

definition odd_irq_run :: "(errno + u32) outcome" where
  "odd_irq_run =
     davinci_spi_bufs_pio davinci_hw spi0 (xfer_short\<lparr>tx_buf := 0, rx_buf := 0x2000, len := 3\<rparr>)
       (ready16\<lparr>inputs := map RegVal [0, 0, 0, 0x80000000, 0, 0, 0]\<rparr>)"

definition odd_full_run :: "(errno + u32) outcome" where
  "odd_full_run =
     davinci_spi_bufs_pio davinci_hw spi0 (xfer_short\<lparr>len := 3\<rparr>)
       (ready16\<lparr>mem := (mem ready16)(0x1002 := 0x56, 0x1003 := 0x78),
          inputs := map RegVal [0, 0, 0, 0x80000000, 0, 0x20000000, 0, 0, 0, 0]\<rparr>)"

section \<open>Properties\<close>

subsection \<open>Rules for outcomes\<close>

lemma bnd_simps [simp]:
  "bnd (Return a s) f = f a s" "bnd (Stuck s) f = Stuck s" "bnd (Fault s) f = Fault s"
  by (simp_all add: bnd_def)

lemma bnd_weak_cong: "m = m' \<Longrightarrow> bnd m f = bnd m' f"
  by simp

lemma bnd_Return:
  "bnd m f = Return b s' \<longleftrightarrow> (\<exists>a s1. m = Return a s1 \<and> f a s1 = Return b s')"
  by (cases m) simp_all

lemma post_simps [simp]:
  "post (Return a s) Q = Q a s" "post (Stuck s) Q" "post (Fault s) Q"
  by (simp_all add: post_def)

lemma post_bnd [simp]: "post (bnd m f) Q = post m (\<lambda>a s. post (f a s) Q)"
  by (cases m) (simp_all add: post_def)

lemma post_all: "(\<And>a s. Q a s) \<Longrightarrow> post m Q"
  by (simp add: post_def)

lemma post_mono: "post m Q' \<Longrightarrow> (\<And>a s. Q' a s \<Longrightarrow> Q a s) \<Longrightarrow> post m Q"
  by (simp add: post_def)

lemma post_conj: "post m Q1 \<Longrightarrow> post m Q2 \<Longrightarrow> post m (\<lambda>a s. Q1 a s \<and> Q2 a s)"
  by (simp add: post_def)

lemma postI: "(\<And>a s'. m = Return a s' \<Longrightarrow> Q a s') \<Longrightarrow> post m Q"
  by (simp add: post_def)

lemma post_D: "post m Q \<Longrightarrow> m = Return a s \<Longrightarrow> Q a s"
  by (simp add: post_def)

text \<open>The definitions that a run on a concrete input unfolds. The loops unfold one
  iteration at a time: with \<open>bnd_weak_cong\<close> the simplifier evaluates the first
  argument of \<open>bnd\<close> before it looks at the continuation.\<close>

lemmas run_defs =
  davinci_spi_bufs_pio_def pio_transfer_def davinci_spi_bufs_prep_def
  davinci_spi_bufs_dma_def dma_transfer_def dma_prime_def dma_setup_tx_def
  dma_setup_rx_def dma_run_def dma_map_single_def dma_unmap_single_def extern_call_def
  wait_for_completion_interruptible_def davinci_spi_set_dma_req_def
  davinci_spi_setup_transfer_def transfer_bits_per_word_def davinci_spi_calc_clk_div_def
  calc_prescale_def prescale_before_floor_def clear_fmt_bits_def set_fmt_bits_def
  set_io_bits_def clear_io_bits_def ioread32_def iowrite32_def emit_def
  davinci_spi_check_error_def dev_dbg_def call_get_tx_def call_get_rx_def
  davinci_spi_tx_buf_u8_def davinci_spi_tx_buf_u16_def
  davinci_spi_rx_buf_u8_def davinci_spi_rx_buf_u16_def
  spin_while.simps pio_tx_loop.simps pio_poll_loop.simps pio_irq_loop.simps
  davinci_hw_def probed_def spi0_def unallocated_def xfer_tx2_def ready8_def
  dat1_writes_def word_sle_eq word_sless_alt Let_def

subsection \<open>What a call leaves alone\<close>


lemma xfer_only_refl [simp]: "xfer_only s s"
  by (simp add: xfer_only_def)

lemma xfer_only_trans: "xfer_only s s1 \<Longrightarrow> xfer_only s1 s2 \<Longrightarrow> xfer_only s s2"
  unfolding xfer_only_def
  by (cases s, cases s1, cases s2) simp

lemma xfer_only_fields:
  assumes "xfer_only s s'"
  shows "version s' = version s" "get_rx s' = get_rx s" "get_tx s' = get_tx s"
    "count s' = count s" "in_use s' = in_use s" "done_completion s' = done_completion s"
    "bytes_per_word s' = bytes_per_word s" "dma_channels s' = dma_channels s"
    "pdata s' = pdata s" "speed s' = speed s" "cs_num s' = cs_num s" "clk_rate s' = clk_rate s"
    "tmp_buf s' = tmp_buf s"
  using assms unfolding xfer_only_def by (cases s, cases s', simp)+

lemma xfer_only_emit [simp]: "xfer_only s (emit e s)"
  by (simp add: xfer_only_def emit_def)

lemma xfer_only_bnd:
  assumes "xfer_only s (state_of m)"
    and "\<And>a s1. m = Return a s1 \<Longrightarrow> xfer_only s1 (state_of (f a s1))"
  shows "xfer_only s (state_of (bnd m f))"
  using assms by (cases m) (auto simp: bnd_def intro: xfer_only_trans)

lemma xfer_only_ioread32: "xfer_only s (state_of (ioread32 addr s))"
  by (simp add: ioread32_def xfer_only_def emit_def split: list.splits input.splits)

lemma xfer_only_iowrite32: "xfer_only s (state_of (iowrite32 v addr s))"
  by (simp add: iowrite32_def)

lemma xfer_only_set_io_bits: "xfer_only s (state_of (set_io_bits addr bits s))"
  unfolding set_io_bits_def
  by (intro xfer_only_bnd xfer_only_ioread32 xfer_only_iowrite32)

lemma xfer_only_clear_io_bits: "xfer_only s (state_of (clear_io_bits addr bits s))"
  unfolding clear_io_bits_def
  by (intro xfer_only_bnd xfer_only_ioread32 xfer_only_iowrite32)

lemma xfer_only_call_get_rx: "xfer_only s (call_get_rx d s)"
  by (simp add: call_get_rx_def davinci_spi_rx_buf_u8_def davinci_spi_rx_buf_u16_def xfer_only_def
      split: rx_accessor.splits)

lemma xfer_only_call_get_tx: "call_get_tx s = (d, s') \<Longrightarrow> xfer_only s s'"
  by (auto simp: call_get_tx_def davinci_spi_tx_buf_u8_def davinci_spi_tx_buf_u16_def xfer_only_def
      split: tx_accessor.splits)

lemma xfer_only_spin_while: "xfer_only s (state_of (spin_while addr busy s))"
proof (induction addr busy s rule: spin_while.induct)
  case (1 addr busy s)
  show ?case
    by (subst spin_while.simps) (auto intro!: xfer_only_bnd xfer_only_ioread32 "1.IH")
qed

lemma xfer_only_pio_tx_loop: "xfer_only s (state_of (pio_tx_loop hw t d c s))"
proof (induction hw t d c s rule: pio_tx_loop.induct)
  case (1 hw t d c s)
  obtain tx_data s0 where g: "call_get_tx s = (tx_data, s0)" by (cases "call_get_tx s")
  show ?case
    apply (subst pio_tx_loop.simps)
    apply (simp add: g Let_def)
    apply (rule xfer_only_trans [OF xfer_only_call_get_tx [OF g]])
    apply (intro xfer_only_bnd xfer_only_ioread32 xfer_only_spin_while)
       apply (auto intro!: xfer_only_bnd xfer_only_iowrite32 xfer_only_ioread32 xfer_only_call_get_rx)[1]
      apply (auto intro!: xfer_only_bnd xfer_only_iowrite32 xfer_only_ioread32 xfer_only_call_get_rx)[1]
    apply (auto intro!: "1.IH" [OF g [symmetric] refl, simplified])
    done
qed


lemma xfer_only_pio_poll_loop: "xfer_only s (state_of (pio_poll_loop hw d c s))"
proof (induction hw d c s rule: pio_poll_loop.induct)
  case (1 hw d c s)
  show ?case
    apply (subst pio_poll_loop.simps)
    apply (intro xfer_only_bnd xfer_only_ioread32 xfer_only_spin_while)
     apply (auto intro!: xfer_only_iowrite32)[1]
    apply (auto simp: Let_def intro!: xfer_only_call_get_rx
        intro: xfer_only_trans [OF xfer_only_call_get_rx "1.IH" [OF _ _ _ _ _ refl refl, simplified]])
    done
qed

lemma xfer_only_pio_irq_loop: "xfer_only s (state_of (pio_irq_loop hw d i s))"
proof (induction hw d i s rule: pio_irq_loop.induct)
  case (1 hw d i s)
  show ?case
    apply (subst pio_irq_loop.simps)
    apply (auto intro!: xfer_only_bnd xfer_only_set_io_bits xfer_only_iowrite32 xfer_only_spin_while "1.IH")
    done
qed

lemma xfer_only_check_error: "davinci_spi_check_error hw s st = (r, s') \<Longrightarrow> xfer_only s s'"
  by (auto simp: davinci_spi_check_error_def dev_dbg_def split: if_splits)

lemma xfer_only_pio_transfer: "xfer_only s (state_of (pio_transfer hw spi t s))"
  unfolding pio_transfer_def Let_def
  apply (intro xfer_only_bnd xfer_only_set_io_bits xfer_only_clear_io_bits xfer_only_iowrite32 xfer_only_spin_while xfer_only_ioread32)
   apply (auto intro!: xfer_only_bnd xfer_only_clear_io_bits xfer_only_pio_tx_loop xfer_only_pio_poll_loop xfer_only_pio_irq_loop xfer_only_iowrite32)[1]
  apply (auto split: prod.splits intro: xfer_only_check_error)
  done


lemma xfer_only_bufs_prep: "xfer_only s (state_of (davinci_spi_bufs_prep hw spi s))"
  unfolding davinci_spi_bufs_prep_def Let_def
  by (intro xfer_only_bnd xfer_only_iowrite32)
     (auto intro: xfer_only_set_io_bits xfer_only_clear_io_bits)

lemma xfer_only_emit_left [simp]: "xfer_only (emit e s) s' = xfer_only s s'"
  unfolding xfer_only_def emit_def by (cases s, cases s', auto)

lemma xfer_only_emit_right [simp]: "xfer_only s (emit e s') = xfer_only s s'"
  unfolding xfer_only_def emit_def by (cases s, cases s', auto)

lemmas emit_calls = extern_call_def dma_unmap_single_def dev_dbg_def

lemma xfer_only_dma_map_single: "xfer_only s (state_of (dma_map_single p sz dir s))"
  by (simp add: dma_map_single_def xfer_only_def emit_def split: list.splits input.splits)

lemma xfer_only_wait: "xfer_only s (state_of (wait_for_completion_interruptible c s))"
  by (simp add: wait_for_completion_interruptible_def xfer_only_def emit_def
      split: list.splits input.splits)

lemma xfer_only_set_dma_req: "xfer_only s (state_of (davinci_spi_set_dma_req hw e s))"
  by (simp add: davinci_spi_set_dma_req_def xfer_only_set_io_bits xfer_only_clear_io_bits)

lemma xfer_only_dma_setup_rx: "xfer_only s (state_of (dma_setup_rx t d c ch dt s))"
  unfolding dma_setup_rx_def Let_def
  apply (intro xfer_only_bnd xfer_only_iowrite32 xfer_only_dma_map_single)
  apply (simp add: emit_calls split: prod.splits)
  done

lemma xfer_only_dma_setup_tx: "xfer_only s (state_of (dma_setup_tx t c ch dt s))"
  unfolding dma_setup_tx_def Let_def
  apply (intro xfer_only_bnd)
   apply (simp add: xfer_only_dma_map_single)
  apply (simp add: emit_calls split: prod.splits)
  done

lemma xfer_only_dma_prime: "xfer_only s (state_of (dma_prime hw spi s))"
  unfolding dma_prime_def Let_def
  by (intro xfer_only_bnd xfer_only_iowrite32 xfer_only_clear_io_bits xfer_only_set_io_bits
      xfer_only_spin_while) simp

lemma xfer_only_dma_run: "xfer_only s (state_of (dma_run hw t c tc txc rxc s))"
proof -
  have *: "xfer_only s0 s1 \<Longrightarrow> xfer_only s0 (state_of (
      bnd (if rx_buf t \<noteq> 0 \<or> tx_buf t \<noteq> 0
           then davinci_spi_set_dma_req hw True s1 else Return () s1) (\<lambda>_ s.
      bnd (if tx_buf t \<noteq> 0
           then wait_for_completion_interruptible ''dma_tx_completion'' s
           else Return () s) (\<lambda>_ s.
      bnd (if rx_buf t \<noteq> 0
           then wait_for_completion_interruptible ''dma_rx_completion'' s
           else Return () s) (\<lambda>_ s.
      bnd (ioread32 SPIFLG (f s)) (\<lambda>int_status s.
      case davinci_spi_check_error hw s int_status of (ret, s) \<Rightarrow> Return ret s))))))"
    if f: "\<And>s. xfer_only s (f s)" for s0 s1 f
    apply (rule xfer_only_trans, assumption)
    apply (intro xfer_only_bnd)
       apply (simp add: xfer_only_set_dma_req)
      apply (simp add: xfer_only_wait)
     apply (simp add: xfer_only_wait)
     apply (rule xfer_only_trans [OF f xfer_only_ioread32])
    apply (auto split: prod.splits intro: xfer_only_check_error)
    done
  show ?thesis
    unfolding dma_run_def Let_def
    by (rule *) (simp_all add: emit_calls)
qed

lemma xfer_only_dma_transfer: "xfer_only s (state_of (dma_transfer hw spi t dt s))"
  unfolding dma_transfer_def Let_def
  apply (intro xfer_only_bnd xfer_only_dma_prime xfer_only_dma_setup_tx)
  apply (auto intro!: xfer_only_bnd xfer_only_dma_setup_rx xfer_only_dma_run
      split: sum.splits option.splits)
  done

lemma post_xfer_only: "xfer_only s (state_of m) \<Longrightarrow> post m (\<lambda>a s'. xfer_only s s')"
  by (cases m) simp_all


subsection \<open>The error classifier\<close>

text \<open>
  Claim C4, as stated: the classifier walks the eight conditions in the order timeout,
  desynchronization, bit error, data-length error, parity error, receive overrun, stale
  transmit interrupt, buffer-init-active, and returns the outcome of the first one that
  matches. This fails on a controller whose version is not above \<open>SPI_VERSION_2\<close>:
  with only the receive-overrun flag set the table reports the overrun, the code
  reports success. It also fails where the claim singles out bit error against
  overrun: with the timeout flag set as well, the result is the timeout outcome.
\<close>

theorem check_error_first_match_counterexample:
  "davinci_spi_check_error davinci_hw probed 0x40 = (Inr (), probed)
   \<and> report (first_match 0x40 (spiflg_priority davinci_hw)) probed
       = (Inl EIO, dev_dbg ''SPI Data Overrun error'' probed)
   \<and> fst (davinci_spi_check_error davinci_hw probed 0x52) = Inl ETIMEDOUT"
  by (simp add: davinci_spi_check_error_def spiflg_priority_def davinci_hw_def probed_def)

text \<open>
  Claim C4, amended: on a controller whose version is above \<open>SPI_VERSION_2\<close> the
  classifier returns the outcome (diagnostic and code) of the first condition that
  matches in the order of the table; on any other controller it does so for the first
  three conditions only (timeout, desynchronization, bit error) and reports success
  otherwise. On every controller, a status word with the bit-error and the
  receive-overrun flag set, and neither the timeout nor the desynchronization flag,
  gets the bit-error outcome.
\<close>

theorem check_error_first_match:
  "davinci_spi_check_error hw s st =
     report (first_match st (if SPI_VERSION_2 hw < version s then spiflg_priority hw
                             else take 3 (spiflg_priority hw))) s
   \<and> (st AND SPIFLG_BITERR_MASK hw \<noteq> 0 \<and> st AND SPIFLG_OVRRUN_MASK hw \<noteq> 0
        \<and> st AND SPIFLG_TIMEOUT_MASK hw = 0 \<and> st AND SPIFLG_DESYNC_MASK hw = 0
      \<longrightarrow> davinci_spi_check_error hw s st = (Inl EIO, dev_dbg ''SPI Bit error'' s))"
  by (simp add: davinci_spi_check_error_def spiflg_priority_def)

theorem check_error_first_match_witness:
  "(0x50 :: u32) AND SPIFLG_BITERR_MASK davinci_hw \<noteq> 0
   \<and> (0x50 :: u32) AND SPIFLG_OVRRUN_MASK davinci_hw \<noteq> 0
   \<and> (0x50 :: u32) AND SPIFLG_TIMEOUT_MASK davinci_hw = 0
   \<and> (0x50 :: u32) AND SPIFLG_DESYNC_MASK davinci_hw = 0
   \<and> davinci_spi_check_error davinci_hw (probed\<lparr>version := 2\<rparr>) 0x50
       = (Inl EIO, dev_dbg ''SPI Bit error'' (probed\<lparr>version := 2\<rparr>))"
proof -
  have h: "(0x50 :: u32) AND SPIFLG_BITERR_MASK davinci_hw \<noteq> 0
      \<and> (0x50 :: u32) AND SPIFLG_OVRRUN_MASK davinci_hw \<noteq> 0
      \<and> (0x50 :: u32) AND SPIFLG_TIMEOUT_MASK davinci_hw = 0
      \<and> (0x50 :: u32) AND SPIFLG_DESYNC_MASK davinci_hw = 0"
    by (simp add: davinci_hw_def)
  from check_error_first_match [of davinci_hw "probed\<lparr>version := 2\<rparr>" "0x50"] h
  show ?thesis by blast
qed

text \<open>
  Claim C6, as stated: two different status words that each have exactly one of the
  seven conditions set get two different return values. The words \<open>0x8\<close>
  (desynchronization only) and \<open>0x10\<close> (bit error only) get the same one, also on a
  controller that runs all eight tests.
\<close>

theorem check_error_distinct_counterexample:
  "conditions_set davinci_hw 0x8 = [SPIFLG_DESYNC_MASK davinci_hw]
   \<and> conditions_set davinci_hw 0x10 = [SPIFLG_BITERR_MASK davinci_hw]
   \<and> fst (davinci_spi_check_error davinci_hw (probed\<lparr>version := 2\<rparr>) 0x8) = Inl EIO
   \<and> fst (davinci_spi_check_error davinci_hw (probed\<lparr>version := 2\<rparr>) 0x10) = Inl EIO"
  by (simp add: davinci_spi_check_error_def conditions_set_def condition_masks_def
      davinci_hw_def probed_def)

text \<open>
  Claim C6, amended: the seven conditions are reported through two codes. On a
  controller whose version is above \<open>SPI_VERSION_2\<close>, a status word with the timeout
  flag clear and exactly one of the seven conditions set is answered with \<open>EBUSY\<close> when
  that condition is buffer-init-active and with \<open>EIO\<close> for each of the other six. The
  return value separates buffer-init-active from the rest and does not separate the
  other six from one another.
\<close>

theorem check_error_two_codes:
  assumes "SPI_VERSION_2 hw < version s"
    and "st AND SPIFLG_TIMEOUT_MASK hw = 0"
    and "conditions_set hw st = [m]"
  shows "fst (davinci_spi_check_error hw s st) =
           (if m = SPIFLG_BUF_INIT_ACTIVE_MASK hw then Inl EBUSY else Inl EIO)"
  using assms
  by (auto simp: davinci_spi_check_error_def conditions_set_def condition_masks_def
      split: if_splits)

theorem check_error_two_codes_witness:
  "SPI_VERSION_2 davinci_hw < version (probed\<lparr>version := 2\<rparr>)
   \<and> (0x1000000 :: u32) AND SPIFLG_TIMEOUT_MASK davinci_hw = 0
   \<and> conditions_set davinci_hw 0x1000000 = [SPIFLG_BUF_INIT_ACTIVE_MASK davinci_hw]
   \<and> fst (davinci_spi_check_error davinci_hw (probed\<lparr>version := 2\<rparr>) 0x1000000) = Inl EBUSY"
proof -
  have v: "SPI_VERSION_2 davinci_hw < version (probed\<lparr>version := 2\<rparr>)"
    by (simp add: davinci_hw_def)
  have t: "(0x1000000 :: u32) AND SPIFLG_TIMEOUT_MASK davinci_hw = 0"
    by (simp add: davinci_hw_def)
  have c: "conditions_set davinci_hw 0x1000000 = [SPIFLG_BUF_INIT_ACTIVE_MASK davinci_hw]"
    by (simp add: conditions_set_def condition_masks_def davinci_hw_def)
  from check_error_two_codes [OF v t c] v t c show ?thesis by simp
qed

text \<open>
  Claim C9: on a controller whose version is not above \<open>SPI_VERSION_2\<close> only the
  timeout, desynchronization and bit-error flags are tested. A status word in which
  none of these three is set is classified as success, whatever else it has set, and
  nothing is logged.
\<close>

theorem check_error_old_version:
  assumes "version s \<le> SPI_VERSION_2 hw"
    and "st AND SPIFLG_TIMEOUT_MASK hw = 0"
    and "st AND SPIFLG_DESYNC_MASK hw = 0"
    and "st AND SPIFLG_BITERR_MASK hw = 0"
  shows "davinci_spi_check_error hw s st = (Inr (), s)"
  using assms by (simp add: davinci_spi_check_error_def)

theorem check_error_old_version_witness:
  "version probed \<le> SPI_VERSION_2 davinci_hw
   \<and> (0x1000245 :: u32) AND SPIFLG_TIMEOUT_MASK davinci_hw = 0
   \<and> (0x1000245 :: u32) AND SPIFLG_DESYNC_MASK davinci_hw = 0
   \<and> (0x1000245 :: u32) AND SPIFLG_BITERR_MASK davinci_hw = 0
   \<and> (0x1000245 :: u32) =
        SPIFLG_DLEN_ERR_MASK davinci_hw OR SPIFLG_PARERR_MASK davinci_hw
        OR SPIFLG_OVRRUN_MASK davinci_hw OR SPIFLG_TX_INTR_MASK davinci_hw
        OR SPIFLG_BUF_INIT_ACTIVE_MASK davinci_hw
   \<and> davinci_spi_check_error davinci_hw probed 0x1000245 = (Inr (), probed)"
proof -
  have v: "version probed \<le> SPI_VERSION_2 davinci_hw"
    by (simp add: davinci_hw_def probed_def)
  have t: "(0x1000245 :: u32) AND SPIFLG_TIMEOUT_MASK davinci_hw = 0"
    and d: "(0x1000245 :: u32) AND SPIFLG_DESYNC_MASK davinci_hw = 0"
    and b: "(0x1000245 :: u32) AND SPIFLG_BITERR_MASK davinci_hw = 0"
    by (simp_all add: davinci_hw_def)
  have m: "(0x1000245 :: u32) =
        SPIFLG_DLEN_ERR_MASK davinci_hw OR SPIFLG_PARERR_MASK davinci_hw
        OR SPIFLG_OVRRUN_MASK davinci_hw OR SPIFLG_TX_INTR_MASK davinci_hw
        OR SPIFLG_BUF_INIT_ACTIVE_MASK davinci_hw"
    by (simp add: davinci_hw_def)
  from check_error_old_version [OF v t d b] v t d b m show ?thesis by simp
qed

subsection \<open>The clock divisor\<close>

lemma nat_div_succ: "0 < h \<Longrightarrow> c div (c div h + 1) \<le> (h::nat)"
proof -
  assume h: "0 < h"
  have "c < h * (c div h + 1)"
    using dividend_less_times_div [OF h, of c] by (simp add: algebra_simps)
  then have "c div (c div h + 1) < h"
    by (simp add: less_mult_imp_div_less mult.commute)
  then show ?thesis by simp
qed

text \<open>
  What the computation does on the rates of claim C2: the result respects the requested
  rate unless it is 256, and it is 256 exactly for the rates below a 256th of the
  clock. Neither the floor of 2 nor a result of 255 is ever an exception.
\<close>

lemma calc_prescale_rate:
  assumes "0 < hz" and "hz \<le> clk div 2"
  shows "(calc_prescale clk hz = 0x100 \<longleftrightarrow> hz < clk div 0x100)
       \<and> (calc_prescale clk hz \<noteq> 0x100 \<longrightarrow> clk div (calc_prescale clk hz + 1) \<le> hz)"
proof -
  define C H where "C = unat clk" and "H = unat hz"
  let ?q = "clk div hz"
  have H0: "0 < H" using assms(1) by (simp add: H_def word_less_nat_alt)
  have "H \<le> C div 2" using assms(2) by (simp add: H_def C_def word_le_nat_alt unat_div)
  then have "2 * H \<le> C" by simp
  then have Q2: "2 \<le> C div H" using H0
    by (metis div_le_mono nonzero_mult_div_cancel_right less_numeral_extra(3))
  have uq: "unat ?q = C div H" by (simp add: unat_div C_def H_def)
  have q1: "1 \<le> ?q" using Q2 uq by (simp add: word_le_nat_alt)
  have up: "unat (?q - 1) = C div H - 1"
    using q1 by (simp add: unat_sub uq)
  show ?thesis
  proof (cases "?q - 1 > 0xff")
    case True
    then have bf: "prescale_before_floor clk hz = (if hz < clk div 0x100 then 0x100 else 0xff)"
      by (simp add: prescale_before_floor_def)
    then show ?thesis
      by (auto simp: calc_prescale_def word_le_nat_alt word_less_nat_alt)
  next
    case False
    have bf: "prescale_before_floor clk hz = (if hz < clk div ?q then ?q else ?q - 1)"
      using False by (simp add: prescale_before_floor_def)
    have Qle: "C div H \<le> 256" using False up by (simp add: word_less_nat_alt)
    have uqq: "unat (clk div ?q) = C div (C div H)" by (simp add: unat_div uq C_def H_def)
    have u256: "unat (clk div 0x100) = C div 256" by (simp add: unat_div C_def)
    have mono: "C div 256 \<le> C div (C div H)"
      using Qle Q2 by (intro div_le_mono2) auto
    show ?thesis
    proof (cases "hz < clk div ?q")
      case True
      then have r: "calc_prescale clk hz = ?q"
        using bf Q2 uq by (simp add: calc_prescale_def word_less_nat_alt)
      have lt: "H < C div (C div H)"
        using True by (simp add: word_less_nat_alt uqq H_def)
      have uq1: "unat (?q + 1) = C div H + 1"
        using Qle uq by (simp add: unat_word_ariths)
      have a: "clk div (?q + 1) \<le> hz"
        using nat_div_succ [OF H0, of C] by (simp add: word_le_nat_alt unat_div uq1 C_def H_def)
      have "?q = 0x100 \<longleftrightarrow> C div H = 256"
        using uq by (auto simp: word_unat_eq_iff)
      moreover have "C div H = 256 \<longleftrightarrow> H < C div 256"
      proof
        assume "C div H = 256" with lt show "H < C div 256" by simp
      next
        assume "H < C div 256"
        then have "256 * H \<le> C" by simp
        then have "256 \<le> C div H" using H0
          by (metis div_le_mono nonzero_mult_div_cancel_right less_numeral_extra(3))
        with Qle show "C div H = 256" by simp
      qed
      ultimately show ?thesis using r a by (simp add: word_less_nat_alt u256 H_def)
    next
      case False
      then have r: "calc_prescale clk hz = (if ?q - 1 < 2 then 2 else ?q - 1)"
        using bf by (simp add: calc_prescale_def)
      have ge: "C div (C div H) \<le> H"
        using False by (simp add: word_less_nat_alt uqq H_def)
      have n256: "calc_prescale clk hz \<noteq> 0x100"
        using r up Qle by (auto simp: word_unat_eq_iff split: if_splits)
      have nlt: "\<not> hz < clk div 0x100"
        using ge mono by (simp add: word_less_nat_alt u256 H_def)
      have "clk div (calc_prescale clk hz + 1) \<le> hz"
      proof (cases "?q - 1 < 2")
        case True
        then have "C div H = 2" using up Q2 by (simp add: word_less_nat_alt)
        then have "C div 3 \<le> H" using ge div_le_mono2 [of 2 3 C] by simp
        then show ?thesis using r True by (simp add: word_le_nat_alt unat_div C_def H_def)
      next
        case False
        then show ?thesis using r \<open>\<not> hz < clk div ?q\<close> by simp
      qed
      with n256 nlt show ?thesis by simp
    qed
  qed
qed

text \<open>
  Claim C2: for every rate \<open>hz\<close> with \<open>0 < hz \<le> ref_clock / 2\<close> the computed prescale
  satisfies \<open>ref_clock / (prescale + 1) \<le> hz\<close>, or is the floor 2, or is the ceiling
  255. The code at a 150 MHz clock and a requested 500 kHz: the rate is in the range,
  the quotient 299 is clamped to 255, and the increment that follows the clamp makes it
  256, which is none of the three.
\<close>

theorem calc_prescale_exceeds_ceiling:
  "(0 :: u32) < 500000 \<and> (500000 :: u32) \<le> 150000000 div 2
   \<and> calc_prescale 150000000 500000 = 0x100
   \<and> \<not> (150000000 div (calc_prescale 150000000 500000 + 1) \<le> (500000 :: u32))
   \<and> calc_prescale 150000000 500000 \<noteq> 2
   \<and> calc_prescale 150000000 500000 \<noteq> 0xff"
  by (simp add: calc_prescale_def prescale_before_floor_def)

text \<open>
  What \<open>davinci_spi_calc_clk_div\<close> does to the format register of the current chip
  select: it reads it, writes it back with bits 8 to 15 cleared, reads it again and
  writes it back with the prescale, shifted left by 8, or-ed in.
\<close>

lemma calc_clk_div_accesses:
  assumes "speed s \<noteq> 0" and "inputs s = RegVal v1 # RegVal v2 # rest"
  shows "\<exists>s'. davinci_spi_calc_clk_div s = Return () s'
           \<and> inputs s' = rest
           \<and> filter is_write (trace s') = filter is_write (trace s) @
                [IoWrite (SPIFMT (cs_num s)) (v1 AND NOT 0xff00),
                 IoWrite (SPIFMT (cs_num s))
                   (v2 OR push_bit 8 (calc_prescale (clk_rate s) (speed s)))]"
  using assms
  by (simp add: davinci_spi_calc_clk_div_def clear_fmt_bits_def set_fmt_bits_def
      set_io_bits_def clear_io_bits_def ioread32_def iowrite32_def bnd_def emit_def
      dev_dbg_def Let_def)

text \<open>
  Claim C7: for every input rate only the prescale field, bits 8 to 15, of the format
  register changes. The code at a 150 MHz clock and a rate of 500 kHz, on a format
  register that reads 0: the second write stores \<open>0x10000\<close>, which sets bit 16 and
  leaves the prescale field 0.
\<close>

theorem calc_clk_div_sets_bit_16:
  "davinci_spi_calc_clk_div (probed\<lparr>speed := 500000, inputs := [RegVal 0, RegVal 0]\<rparr>)
     = Return () (probed\<lparr>speed := 500000, inputs := [],
         trace := [IoRead (SPIFMT 0) 0, IoWrite (SPIFMT 0) 0,
                   IoRead (SPIFMT 0) 0, IoWrite (SPIFMT 0) 0x10000]\<rparr>)
   \<and> (0x10000 :: u32) AND NOT 0xff00 \<noteq> 0 AND NOT 0xff00"
  by (simp add: davinci_spi_calc_clk_div_def probed_def calc_prescale_def
      prescale_before_floor_def clear_fmt_bits_def set_fmt_bits_def set_io_bits_def
      clear_io_bits_def ioread32_def iowrite32_def bnd_def emit_def)

subsection \<open>Word width negotiation\<close>

lemma xfer_only_calc_clk_div: "xfer_only s (state_of (davinci_spi_calc_clk_div s))"
proof -
  have *: "xfer_only s0 (state_of (bnd (clear_io_bits a b s0) (\<lambda>_. set_io_bits a c)))"
    for s0 a b c
    by (intro xfer_only_bnd xfer_only_set_io_bits xfer_only_clear_io_bits)
  show ?thesis
    unfolding davinci_spi_calc_clk_div_def clear_fmt_bits_def set_fmt_bits_def
    by (auto simp: Let_def dev_dbg_def intro: * xfer_only_trans [OF xfer_only_emit *])
qed

lemma setup_transfer_rejects:
  "transfer_bits_per_word spi t < 2 \<or> 16 < transfer_bits_per_word spi t \<Longrightarrow>
   davinci_spi_setup_transfer hw spi t s = Return (Inl EINVAL) s"
  by (auto simp: davinci_spi_setup_transfer_def Let_def word_le_nat_alt word_less_nat_alt)

lemma setup_transfer_tail:
  "xfer_only s (state_of (
      bnd (clear_fmt_bits m c s) (\<lambda>_ s.
                bnd (set_fmt_bits b c s) (\<lambda>_ s.
                bnd (davinci_spi_calc_clk_div s) (\<lambda>_ s.
                Return (Inr ()) s)))))"
  unfolding clear_fmt_bits_def set_fmt_bits_def
  by (intro xfer_only_bnd xfer_only_set_io_bits xfer_only_clear_io_bits xfer_only_calc_clk_div) simp

lemma setup_transfer_tail_value:
  "value_of (
      bnd (clear_fmt_bits m c s) (\<lambda>_ s.
                bnd (set_fmt_bits b c s) (\<lambda>_ s.
                bnd (davinci_spi_calc_clk_div s) (\<lambda>_ s.
                Return (Inr ()) s)))) \<in> {None, Some (Inr ())}"
  by (auto simp: bnd_def split: outcome.splits)


lemmas setup_transfer_tail_fields = xfer_only_fields(2,3,7) [OF setup_transfer_tail]

lemma setup_transfer_accepts:
  fixes hw spi t s
  assumes "2 \<le> transfer_bits_per_word spi t" and "transfer_bits_per_word spi t \<le> 16"
  defines "wide \<equiv> \<not> transfer_bits_per_word spi t \<le> 8"
  defines "out \<equiv> davinci_spi_setup_transfer hw spi t s"
  shows "get_rx (state_of out) = (if wide then davinci_spi_rx_buf_u16_ptr else davinci_spi_rx_buf_u8_ptr)"
    and "get_tx (state_of out) = (if wide then davinci_spi_tx_buf_u16_ptr else davinci_spi_tx_buf_u8_ptr)"
    and "bytes_per_word (state_of out) (chip_select spi) = (if wide then 2 else 1)"
    and "value_of out \<in> {None, Some (Inr ())}"
  using assms(1,2) unfolding out_def wide_def davinci_spi_setup_transfer_def Let_def
  by (simp_all add: setup_transfer_tail_fields setup_transfer_tail_value del: insert_iff)

text \<open>
  Claim C3: with the bits-per-word value that \<open>davinci_spi_setup_transfer\<close> works with
  (the transfer's, or the device's when the transfer has none), a value in [2,8] binds
  the byte accessors and records \<open>bytes_per_word = 1\<close>, a value in [9,16] binds the
  halfword accessors and records \<open>bytes_per_word = 2\<close>, and any other value fails with
  \<open>EINVAL\<close> in the state the call started from, so nothing was written, no register
  either. The bindings are in place however the call goes on, also when it does not
  return; when it returns, it does not return \<open>EINVAL\<close>.
\<close>

theorem setup_transfer_word_width:
  fixes hw spi t s
  defines "bpw \<equiv> transfer_bits_per_word spi t"
  defines "out \<equiv> davinci_spi_setup_transfer hw spi t s"
  shows "(2 \<le> bpw \<and> bpw \<le> 8 \<longrightarrow>
            get_rx (state_of out) = davinci_spi_rx_buf_u8_ptr
          \<and> get_tx (state_of out) = davinci_spi_tx_buf_u8_ptr
          \<and> bytes_per_word (state_of out) (chip_select spi) = 1
          \<and> value_of out \<noteq> Some (Inl EINVAL))
       \<and> (9 \<le> bpw \<and> bpw \<le> 16 \<longrightarrow>
            get_rx (state_of out) = davinci_spi_rx_buf_u16_ptr
          \<and> get_tx (state_of out) = davinci_spi_tx_buf_u16_ptr
          \<and> bytes_per_word (state_of out) (chip_select spi) = 2
          \<and> value_of out \<noteq> Some (Inl EINVAL))
       \<and> (bpw < 2 \<or> 16 < bpw \<longrightarrow> out = Return (Inl EINVAL) s)"
proof (intro conjI impI)
  assume a: "2 \<le> bpw \<and> bpw \<le> 8"
  then have b: "2 \<le> transfer_bits_per_word spi t" "transfer_bits_per_word spi t \<le> 16"
    by (auto simp: bpw_def word_le_nat_alt)
  from setup_transfer_accepts [OF b, of hw s] a
  show "get_rx (state_of out) = davinci_spi_rx_buf_u8_ptr"
    "get_tx (state_of out) = davinci_spi_tx_buf_u8_ptr"
    "bytes_per_word (state_of out) (chip_select spi) = 1"
    "value_of out \<noteq> Some (Inl EINVAL)"
    by (auto simp: bpw_def out_def)
next
  assume a: "9 \<le> bpw \<and> bpw \<le> 16"
  then have b: "2 \<le> transfer_bits_per_word spi t" "transfer_bits_per_word spi t \<le> 16"
    and w: "\<not> transfer_bits_per_word spi t \<le> 8"
    by (auto simp: bpw_def word_le_nat_alt)
  from setup_transfer_accepts [OF b, of hw s] w
  show "get_rx (state_of out) = davinci_spi_rx_buf_u16_ptr"
    "get_tx (state_of out) = davinci_spi_tx_buf_u16_ptr"
    "bytes_per_word (state_of out) (chip_select spi) = 2"
    "value_of out \<noteq> Some (Inl EINVAL)"
    by (auto simp: out_def)
next
  assume "bpw < 2 \<or> 16 < bpw"
  then show "out = Return (Inl EINVAL) s"
    unfolding bpw_def out_def by (rule setup_transfer_rejects)
qed



theorem setup_transfer_word_width_witness:
  "2 \<le> transfer_bits_per_word spi0 (Some xfer_tx2)
   \<and> transfer_bits_per_word spi0 (Some xfer_tx2) \<le> 8
   \<and> get_rx (state_of (davinci_spi_setup_transfer davinci_hw spi0 (Some xfer_tx2) probed))
       = davinci_spi_rx_buf_u8_ptr
   \<and> bytes_per_word (state_of (davinci_spi_setup_transfer davinci_hw spi0 (Some xfer_tx2) probed))
        (chip_select spi0) = 1
   \<and> 9 \<le> transfer_bits_per_word spi0 (Some (xfer_tx2\<lparr>t_bits_per_word := 16\<rparr>))
   \<and> transfer_bits_per_word spi0 (Some (xfer_tx2\<lparr>t_bits_per_word := 16\<rparr>)) \<le> 16
   \<and> get_tx (state_of (davinci_spi_setup_transfer davinci_hw spi0
                          (Some (xfer_tx2\<lparr>t_bits_per_word := 16\<rparr>)) probed))
       = davinci_spi_tx_buf_u16_ptr
   \<and> bytes_per_word (state_of (davinci_spi_setup_transfer davinci_hw spi0
                                  (Some (xfer_tx2\<lparr>t_bits_per_word := 16\<rparr>)) probed))
        (chip_select spi0) = 2
   \<and> 16 < transfer_bits_per_word spi0 (Some (xfer_tx2\<lparr>t_bits_per_word := 17\<rparr>))
   \<and> davinci_spi_setup_transfer davinci_hw spi0 (Some (xfer_tx2\<lparr>t_bits_per_word := 17\<rparr>)) probed
       = Return (Inl EINVAL) probed"
proof -
  have a: "2 \<le> transfer_bits_per_word spi0 (Some xfer_tx2)
      \<and> transfer_bits_per_word spi0 (Some xfer_tx2) \<le> 8"
    by (simp add: transfer_bits_per_word_def xfer_tx2_def)
  have b: "9 \<le> transfer_bits_per_word spi0 (Some (xfer_tx2\<lparr>t_bits_per_word := 16\<rparr>))
      \<and> transfer_bits_per_word spi0 (Some (xfer_tx2\<lparr>t_bits_per_word := 16\<rparr>)) \<le> 16"
    by (simp add: transfer_bits_per_word_def xfer_tx2_def)
  have c: "16 < transfer_bits_per_word spi0 (Some (xfer_tx2\<lparr>t_bits_per_word := 17\<rparr>))"
    by (simp add: transfer_bits_per_word_def xfer_tx2_def)
  from a b c
    setup_transfer_word_width [of spi0 "Some xfer_tx2" davinci_hw probed]
    setup_transfer_word_width [of spi0 "Some (xfer_tx2\<lparr>t_bits_per_word := 16\<rparr>)" davinci_hw probed]
    setup_transfer_word_width [of spi0 "Some (xfer_tx2\<lparr>t_bits_per_word := 17\<rparr>)" davinci_hw probed]
  show ?thesis by blast
qed

text \<open>A complete call: 8 bits per word at 1 MHz on the 150 MHz clock writes the
  character length 8 and the prescale 149 into the format register.\<close>

lemma setup_transfer_run:
  "davinci_spi_setup_transfer davinci_hw spi0 (Some xfer_tx2)
     (probed\<lparr>inputs := map RegVal [0, 0, 0, 0]\<rparr>)
   = Return (Inr ())
       (probed\<lparr>bytes_per_word := (\<lambda>cs. 0)(0 := 1), speed := 1000000,
          trace := [IoRead (SPIFMT 0) 0, IoWrite (SPIFMT 0) 0,
                    IoRead (SPIFMT 0) 0, IoWrite (SPIFMT 0) 8,
                    IoRead (SPIFMT 0) 0, IoWrite (SPIFMT 0) 0,
                    IoRead (SPIFMT 0) 0, IoWrite (SPIFMT 0) (push_bit 8 149)]\<rparr>)"
  by (simp add: run_defs cong: bnd_weak_cong)

subsection \<open>DMA channel request\<close>

text \<open>
  Claim C8: when the first call of \<open>edma_alloc_channel\<close> gives a channel \<open>r1\<close> and the
  second one fails, \<open>davinci_spi_request_dma\<close> frees \<open>r1\<close>, sets the RX handle to -1 and
  only then logs and returns \<open>EAGAIN\<close> (first part; the trace shows the order). A pair
  that was unallocated when the function was called is, after any return, allocated in
  both halves with result 0, or unallocated in both with result \<open>EAGAIN\<close> (second
  part).
\<close>

theorem request_dma_unwinds:
  "(inputs s = ChanResult r1 # ChanResult r2 # rest \<and> \<not> r1 <s 0 \<and> r2 <s 0 \<longrightarrow>
      (\<exists>s'. davinci_spi_request_dma spi s = Return (Inl EAGAIN) s'
         \<and> dma_rx_channel (dma_channels s' (chip_select spi)) = - 1
         \<and> trace s' = trace s @
             [Call ''edma_alloc_channel''
                [V (dma_rx_sync_dev (dma_channels s (chip_select spi))),
                 Sym ''davinci_spi_dma_rx_callback'',
                 V (eventq (dma_channels s (chip_select spi)))],
              Call ''edma_alloc_channel''
                [V (dma_tx_sync_dev (dma_channels s (chip_select spi))),
                 Sym ''davinci_spi_dma_tx_callback'',
                 V (eventq (dma_channels s (chip_select spi)))],
              Call ''edma_free_channel'' [V r1],
              Dbg ''Unable to request DMA channel for SPI TX'']))
   \<and> (dma_rx_channel (dma_channels s (chip_select spi)) = - 1
      \<and> dma_tx_channel (dma_channels s (chip_select spi)) = - 1
      \<and> davinci_spi_request_dma spi s = Return ret s' \<longrightarrow>
        (ret = Inr ()
           \<and> \<not> dma_rx_channel (dma_channels s' (chip_select spi)) <s 0
           \<and> \<not> dma_tx_channel (dma_channels s' (chip_select spi)) <s 0)
      \<or> (ret = Inl EAGAIN
           \<and> dma_rx_channel (dma_channels s' (chip_select spi)) = - 1
           \<and> dma_tx_channel (dma_channels s' (chip_select spi)) = - 1))"
proof (intro conjI impI)
  assume a: "inputs s = ChanResult r1 # ChanResult r2 # rest \<and> \<not> r1 <s 0 \<and> r2 <s 0"
  then show "\<exists>s'. davinci_spi_request_dma spi s = Return (Inl EAGAIN) s'
         \<and> dma_rx_channel (dma_channels s' (chip_select spi)) = - 1
         \<and> trace s' = trace s @
             [Call ''edma_alloc_channel''
                [V (dma_rx_sync_dev (dma_channels s (chip_select spi))),
                 Sym ''davinci_spi_dma_rx_callback'',
                 V (eventq (dma_channels s (chip_select spi)))],
              Call ''edma_alloc_channel''
                [V (dma_tx_sync_dev (dma_channels s (chip_select spi))),
                 Sym ''davinci_spi_dma_tx_callback'',
                 V (eventq (dma_channels s (chip_select spi)))],
              Call ''edma_free_channel'' [V r1],
              Dbg ''Unable to request DMA channel for SPI TX'']"
    by (simp add: davinci_spi_request_dma_def edma_alloc_channel_def edma_free_channel_def
        emit_def dev_dbg_def Let_def)
next
  assume b: "dma_rx_channel (dma_channels s (chip_select spi)) = - 1
      \<and> dma_tx_channel (dma_channels s (chip_select spi)) = - 1
      \<and> davinci_spi_request_dma spi s = Return ret s'"
  then show "(ret = Inr ()
           \<and> \<not> dma_rx_channel (dma_channels s' (chip_select spi)) <s 0
           \<and> \<not> dma_tx_channel (dma_channels s' (chip_select spi)) <s 0)
      \<or> (ret = Inl EAGAIN
           \<and> dma_rx_channel (dma_channels s' (chip_select spi)) = - 1
           \<and> dma_tx_channel (dma_channels s' (chip_select spi)) = - 1)"
    by (auto simp: davinci_spi_request_dma_def edma_alloc_channel_def edma_free_channel_def
        emit_def dev_dbg_def Let_def bnd_Return split: list.splits input.splits if_splits)
qed

theorem request_dma_unwinds_witness:
  "inputs (probed\<lparr>inputs := [ChanResult 5, ChanResult (- 1)]\<rparr>)
     = ChanResult 5 # ChanResult (- 1) # []
   \<and> \<not> (5 :: s32) <s 0 \<and> (- 1 :: s32) <s 0
   \<and> dma_rx_channel (dma_channels (probed\<lparr>inputs := [ChanResult 5, ChanResult (- 1)]\<rparr>)
                        (chip_select spi0)) = - 1
   \<and> dma_tx_channel (dma_channels (probed\<lparr>inputs := [ChanResult 5, ChanResult (- 1)]\<rparr>)
                        (chip_select spi0)) = - 1
   \<and> (\<exists>s'. davinci_spi_request_dma spi0 (probed\<lparr>inputs := [ChanResult 5, ChanResult (- 1)]\<rparr>)
             = Return (Inl EAGAIN) s'
          \<and> dma_rx_channel (dma_channels s' (chip_select spi0)) = - 1
          \<and> dma_tx_channel (dma_channels s' (chip_select spi0)) = - 1
          \<and> filter (\<lambda>e. e = Call ''edma_free_channel'' [V 5]) (trace s')
              = [Call ''edma_free_channel'' [V 5]])"
proof -
  let ?s = "probed\<lparr>inputs := [ChanResult 5, ChanResult (- 1)]\<rparr>"
  have h: "inputs ?s = ChanResult 5 # ChanResult (- 1) # [] \<and> \<not> (5 :: s32) <s 0 \<and> (- 1 :: s32) <s 0"
    by (simp add: word_sless_alt)
  have u: "dma_rx_channel (dma_channels ?s (chip_select spi0)) = - 1"
    "dma_tx_channel (dma_channels ?s (chip_select spi0)) = - 1"
    by (simp_all add: probed_def unallocated_def)
  from request_dma_unwinds [THEN conjunct1, rule_format, OF h, of spi0]
  obtain s' where r: "davinci_spi_request_dma spi0 ?s = Return (Inl EAGAIN) s'"
    and rx: "dma_rx_channel (dma_channels s' (chip_select spi0)) = - 1"
    and tr: "trace s' = trace ?s @
             [Call ''edma_alloc_channel''
                [V (dma_rx_sync_dev (dma_channels ?s (chip_select spi0))),
                 Sym ''davinci_spi_dma_rx_callback'',
                 V (eventq (dma_channels ?s (chip_select spi0)))],
              Call ''edma_alloc_channel''
                [V (dma_tx_sync_dev (dma_channels ?s (chip_select spi0))),
                 Sym ''davinci_spi_dma_tx_callback'',
                 V (eventq (dma_channels ?s (chip_select spi0)))],
              Call ''edma_free_channel'' [V 5],
              Dbg ''Unable to request DMA channel for SPI TX'']"
    by blast
  from request_dma_unwinds [THEN conjunct2, rule_format, of ?s spi0 "Inl EAGAIN" s'] u r
  have tx: "dma_tx_channel (dma_channels s' (chip_select spi0)) = - 1" by simp
  have f: "filter (\<lambda>e. e = Call ''edma_free_channel'' [V 5]) (trace s')
              = [Call ''edma_free_channel'' [V 5]]"
    by (simp add: tr probed_def)
  from h u r rx tx f show ?thesis by blast
qed

subsection \<open>Release of the in-flight flag\<close>

lemma check_error_values:
  "davinci_spi_check_error hw s st = (r, s') \<Longrightarrow> r \<in> {Inr (), Inl ETIMEDOUT, Inl EIO, Inl EBUSY}"
  by (auto simp: davinci_spi_check_error_def split: if_splits)

lemma bufs_prep_post: "post (davinci_spi_bufs_prep hw spi s) (\<lambda>r s'. r = Inr () \<and> xfer_only s s')"
  apply (rule post_conj)
   apply (simp add: davinci_spi_bufs_prep_def Let_def iowrite32_def post_all)
  apply (rule post_xfer_only [OF xfer_only_bufs_prep])
  done

lemma check_error_post:
  "post (case davinci_spi_check_error hw s st of (ret, s) \<Rightarrow> Return ret s)
     (\<lambda>r s'. r \<in> {Inr (), Inl ETIMEDOUT, Inl EIO, Inl EBUSY})"
  by (auto split: prod.splits dest: check_error_values)

lemma pio_transfer_post:
  "post (pio_transfer hw spi t s)
     (\<lambda>r s'. r \<in> {Inr (), Inl ETIMEDOUT, Inl EIO, Inl EBUSY} \<and> xfer_only s s')"
proof (rule post_conj)
  show "post (pio_transfer hw spi t s) (\<lambda>r s'. r \<in> {Inr (), Inl ETIMEDOUT, Inl EIO, Inl EBUSY})"
    unfolding pio_transfer_def Let_def
    by (simp del: insert_iff) (intro check_error_post post_all conjI impI)
  show "post (pio_transfer hw spi t s) (\<lambda>r s'. xfer_only s s')"
    by (rule post_xfer_only [OF xfer_only_pio_transfer])
qed

lemma done_after:
  "xfer_only (s\<lparr>done_completion := 0, in_use := b\<rparr>) s' \<Longrightarrow> done_completion s' = 0"
  by (drule xfer_only_fields(6)) simp

lemma bufs_pio_post:
  "post (davinci_spi_bufs_pio hw spi t s)
     (\<lambda>r s'. \<not> in_use s' \<and> done_completion s' = 1
             \<and> r \<in> {Inr (len t), Inl ETIMEDOUT, Inl EIO, Inl EBUSY})"
  apply (simp add: davinci_spi_bufs_pio_def Let_def)
  apply (intro impI post_mono [OF bufs_prep_post])
  apply clarsimp
  apply (rule post_mono [OF pio_transfer_post])
  apply (auto dest!: done_after)
  done

lemma dma_setup_rx_post:
  "post (dma_setup_rx t d c ch dt s) (\<lambda>(e, t') s'. e \<in> {None, Some ENOMEM} \<and> len t' = len t)"
  unfolding dma_setup_rx_def Let_def
  by (simp add: post_all split: prod.splits)

lemma dma_setup_tx_post:
  "post (dma_setup_tx t c ch dt s)
     (\<lambda>(r, t') s'. (\<forall>e. r = Inl e \<longrightarrow> e = ENOMEM) \<and> len t' = len t)"
  unfolding dma_setup_tx_def Let_def
  by (simp add: post_all split: prod.splits)

lemma dma_run_post:
  "post (dma_run hw t c tc txc rxc s) (\<lambda>r s'. r \<in> {Inr (), Inl ETIMEDOUT, Inl EIO, Inl EBUSY})"
  unfolding dma_run_def Let_def
  by (simp del: insert_iff) (intro check_error_post post_all conjI impI)

lemma dma_transfer_tail_post:
  "post (bnd (if rx_buf t \<noteq> 0 then dma_setup_rx t d c rxc dt s else Return (None, t) s)
          (\<lambda>(early, t) s.
             case early of
               Some e \<Rightarrow> Return (Inl e, t) s
             | None \<Rightarrow> bnd (dma_run hw t c tc txc rxc s) (\<lambda>ret s. Return (ret, t) s)))
     (\<lambda>(r, t') s'. r \<in> {Inr (), Inl ETIMEDOUT, Inl EIO, Inl EBUSY, Inl ENOMEM}
                    \<and> len t' = len t)"
proof (cases "rx_buf t \<noteq> 0")
  case True
  show ?thesis
    apply (simp add: True del: insert_iff)
    apply (rule post_mono [OF dma_setup_rx_post])
    apply (clarsimp split: option.splits simp del: insert_iff)
    apply (intro conjI impI allI)
     apply (rule post_mono [OF dma_run_post])
     apply auto
    done
next
  case False
  then show ?thesis
    by (simp del: insert_iff) (rule post_mono [OF dma_run_post], auto)
qed

lemma dma_transfer_post:
  "post (dma_transfer hw spi t dt s)
     (\<lambda>(r, t') s'. r \<in> {Inr (), Inl ETIMEDOUT, Inl EIO, Inl EBUSY, Inl ENOMEM}
                    \<and> len t' = len t \<and> xfer_only s s')"
proof -
  have "post (dma_transfer hw spi t dt s)
     (\<lambda>(r, t') s'. r \<in> {Inr (), Inl ETIMEDOUT, Inl EIO, Inl EBUSY, Inl ENOMEM}
                    \<and> len t' = len t)"
    unfolding dma_transfer_def Let_def post_bnd
  proof (rule post_all, rule post_mono [OF dma_setup_tx_post], goal_cases)
    case (1 d s0 a s1)
    obtain r t1 where a: "a = (r, t1)" by (cases a)
    show ?case
    proof (cases r)
      case (Inl e)
      with 1 a show ?thesis by simp
    next
      case (Inr tc)
      from 1 a have l: "len t1 = len t" by simp
      show ?thesis
        unfolding a Inr prod.case sum.case post_bnd [symmetric]
        by (rule post_mono [OF dma_transfer_tail_post]) (auto simp: l)
    qed
  qed
  from post_conj [OF this post_xfer_only [OF xfer_only_dma_transfer]]
  show ?thesis by (rule post_mono) auto
qed

lemma bufs_dma_post:
  assumes "unat (bytes_per_word s (chip_select spi)) * 8 \<le> 32"
  shows "post (davinci_spi_bufs_dma hw spi t s)
     (\<lambda>(r, t') s'. \<not> in_use s' \<and> done_completion s' = 1
             \<and> r \<in> {Inr (len t), Inl ETIMEDOUT, Inl EIO, Inl EBUSY, Inl ENOMEM})"
  using assms
  apply (simp add: davinci_spi_bufs_dma_def Let_def)
  apply (intro impI conjI post_mono [OF bufs_prep_post])
    apply (clarsimp; rule post_mono [OF dma_transfer_post]; auto dest!: done_after)+
  done


lemma value_of_Some: "value_of m = Some a \<Longrightarrow> \<exists>s. m = Return a s"
  by (cases m) auto

text \<open>
  Claim C5: every return of \<open>davinci_spi_bufs_pio\<close>, and every return of
  \<open>davinci_spi_bufs_dma\<close> that got past the check of the word length (the only return
  before the flag is set), leaves \<open>in_use\<close> false and the completion \<open>done\<close> signalled
  once. The returns are the success with the length of the transfer, the three error
  codes of the classifier, and for DMA the failure to map a buffer.
\<close>

theorem transfer_exit_releases:
  "(davinci_spi_bufs_pio hw spi t s = Return r s' \<longrightarrow>
      \<not> in_use s' \<and> done_completion s' = 1
      \<and> r \<in> {Inr (len t), Inl ETIMEDOUT, Inl EIO, Inl EBUSY})
   \<and> (davinci_spi_bufs_dma hw spi t s = Return (r2, t2) s2
        \<and> unat (bytes_per_word s (chip_select spi)) * 8 \<le> 32 \<longrightarrow>
      \<not> in_use s2 \<and> done_completion s2 = 1
      \<and> r2 \<in> {Inr (len t), Inl ETIMEDOUT, Inl EIO, Inl EBUSY, Inl ENOMEM})"
proof (rule conjI; rule impI)
  assume "davinci_spi_bufs_pio hw spi t s = Return r s'"
  from post_D [OF bufs_pio_post this]
  show "\<not> in_use s' \<and> done_completion s' = 1
      \<and> r \<in> {Inr (len t), Inl ETIMEDOUT, Inl EIO, Inl EBUSY}" by simp
next
  assume a: "davinci_spi_bufs_dma hw spi t s = Return (r2, t2) s2
        \<and> unat (bytes_per_word s (chip_select spi)) * 8 \<le> 32"
  from post_D [OF bufs_dma_post [OF conjunct2 [OF a]] conjunct1 [OF a]]
  show "\<not> in_use s2 \<and> done_completion s2 = 1
      \<and> r2 \<in> {Inr (len t), Inl ETIMEDOUT, Inl EIO, Inl EBUSY, Inl ENOMEM}" by simp
qed

theorem transfer_exit_releases_witness:
  "(\<exists>s'. fifo_full_run = Return (Inr (len xfer_tx2)) s'
         \<and> \<not> in_use s' \<and> done_completion s' = 1)
   \<and> (\<exists>s'. bit_error_run = Return (Inl EIO) s'
         \<and> \<not> in_use s' \<and> done_completion s' = 1)
   \<and> (\<exists>t' s'. dma_fail_run = Return (Inl ENOMEM, t') s'
         \<and> unat (bytes_per_word ready8 (chip_select spi0)) * 8 \<le> 32
         \<and> \<not> in_use s' \<and> done_completion s' = 1)"
proof -
  have "value_of fifo_full_run = Some (Inr (len xfer_tx2))"
    by (simp add: fifo_full_run_def run_defs cong: bnd_weak_cong)
  then obtain s1 where r1: "fifo_full_run = Return (Inr (len xfer_tx2)) s1"
    by (auto dest: value_of_Some)
  have "value_of bit_error_run = Some (Inl EIO)"
    by (simp add: bit_error_run_def run_defs cong: bnd_weak_cong)
  then obtain s2 where r2: "bit_error_run = Return (Inl EIO) s2"
    by (auto dest: value_of_Some)
  have "\<exists>t'. value_of dma_fail_run = Some (Inl ENOMEM, t')"
    by (simp add: dma_fail_run_def run_defs cong: bnd_weak_cong)
  then obtain t3 s3 where r3: "dma_fail_run = Return (Inl ENOMEM, t3) s3"
    by (auto dest: value_of_Some)
  have w: "unat (bytes_per_word ready8 (chip_select spi0)) * 8 \<le> 32"
    by (simp add: ready8_def)
  from transfer_exit_releases [THEN conjunct1, rule_format, OF r1 [unfolded fifo_full_run_def]]
  have a: "\<not> in_use s1 \<and> done_completion s1 = 1" by simp
  from transfer_exit_releases [THEN conjunct1, rule_format, OF r2 [unfolded bit_error_run_def]]
  have b: "\<not> in_use s2 \<and> done_completion s2 = 1" by simp
  from transfer_exit_releases [THEN conjunct2, rule_format, OF conjI,
      OF r3 [unfolded dma_fail_run_def]] w
  have c: "\<not> in_use s3 \<and> done_completion s3 = 1" by (simp add: ready8_def)
  from r1 r2 r3 a b c w show ?thesis by blast
qed

subsection \<open>The transmit loop and a full FIFO\<close>

text \<open>
  One iteration of the transmit loop that finds the FIFO full: nothing is written, the
  count stays, and the loop goes on from a state whose transmit cursor has moved past
  the word that was fetched.
\<close>

lemma pio_tx_loop_fifo_full_step:
  assumes "inputs s = RegVal v # RegVal v' # rest"
    and "v AND SPIBUF_TXFULL_MASK hw \<noteq> 0"
    and "v' AND SPIBUF_RXEMPTY_MASK hw = 0"
    and "rx_buf t = 0"
    and "\<not> cnt \<le>s 0"
  shows "pio_tx_loop hw t d cnt s =
           pio_tx_loop hw t ((d AND NOT 0xFFFF) OR (0xFFFF AND fst (call_get_tx s))) cnt
             ((snd (call_get_tx s))\<lparr>inputs := rest,
                trace := trace s @ [IoRead SPIBUF v, IoRead SPIBUF v']\<rparr>)"
proof -
  obtain tx_data s0 where g: "call_get_tx s = (tx_data, s0)" by (cases "call_get_tx s")
  then have i: "inputs s0 = inputs s" and tr: "trace s0 = trace s"
    by (auto simp: call_get_tx_def davinci_spi_tx_buf_u8_def davinci_spi_tx_buf_u16_def
        split: tx_accessor.splits)
  show ?thesis
    apply (subst pio_tx_loop.simps)
    apply (simp add: g i tr assms ioread32_def emit_def spin_while.simps [of SPIBUF] cong: bnd_weak_cong)
    done
qed

text \<open>
  Claim C1: in an iteration that finds the transmit FIFO full the command word is not
  written, the count is not decremented, and the same word is written in the next
  iteration, so that no word is skipped. The code on a transfer of the two bytes
  \<open>0x12 0x34\<close> with the FIFO full at the first attempt: it returns the length 2, the
  words written to \<open>SPIDAT1\<close> carry \<open>0x34\<close> and \<open>0x56\<close>, the cursor ends three bytes
  on, and \<open>0x12\<close>, still in memory, was never sent.
\<close>

theorem fifo_full_word_skipped:
  "value_of fifo_full_run = Some (Inr 2)
   \<and> dat1_writes (state_of fifo_full_run)
       = [IoWrite SPIDAT1 0xFE0034, IoWrite SPIDAT1 0xFE0056]
   \<and> tx (state_of fifo_full_run) = 0x1003
   \<and> mem (state_of fifo_full_run) 0x1000 = 0x12"
  by (simp add: fifo_full_run_def run_defs cong: bnd_weak_cong)


subsection \<open>Transfers that are not a whole number of words\<close>

lemma quiet_refl [simp]: "quiet s s"
  by (simp add: quiet_def)

lemma quiet_trans: "quiet s s1 \<Longrightarrow> quiet s1 s2 \<Longrightarrow> quiet s s2"
  unfolding quiet_def by (cases s, cases s1, cases s2) simp

lemma quiet_fields:
  assumes "quiet s s'"
  shows "rx s' = rx s" "tx s' = tx s" "count s' = count s" "get_rx s' = get_rx s"
    "pdata s' = pdata s" "dat1_writes s' = dat1_writes s" "rx_step s' = rx_step s"
    "bytes_per_word s' = bytes_per_word s"
  using assms unfolding quiet_def rx_step_def by (cases s, cases s', simp)+

lemma quiet_ioread32: "ioread32 a s = Return v s' \<Longrightarrow> quiet s s'"
  by (auto simp: ioread32_def emit_def quiet_def dat1_writes_def split: list.splits input.splits)

lemma quiet_iowrite32: "a \<noteq> SPIDAT1 \<Longrightarrow> iowrite32 v a s = Return x s' \<Longrightarrow> quiet s s'"
  by (cases a) (auto simp: iowrite32_def emit_def quiet_def dat1_writes_def)

lemma quiet_set_io_bits: "a \<noteq> SPIDAT1 \<Longrightarrow> set_io_bits a b s = Return x s' \<Longrightarrow> quiet s s'"
  by (auto simp: set_io_bits_def bnd_Return intro: quiet_trans [OF quiet_ioread32 quiet_iowrite32])

lemma quiet_clear_io_bits: "a \<noteq> SPIDAT1 \<Longrightarrow> clear_io_bits a b s = Return x s' \<Longrightarrow> quiet s s'"
  by (auto simp: clear_io_bits_def bnd_Return intro: quiet_trans [OF quiet_ioread32 quiet_iowrite32])

lemma quiet_spin_while: "spin_while a busy s = Return x s' \<Longrightarrow> quiet s s'"
proof (induction a busy s rule: spin_while.induct)
  case (1 addr busy s)
  from "1.prems" obtain v s1 where rd: "ioread32 addr s = Return v s1"
    and rest: "(if busy v then spin_while addr busy s1 else Return () s1) = Return x s'"
    by (subst (asm) spin_while.simps) (auto simp: bnd_Return)
  show ?case
  proof (cases "busy v")
    case True
    with rest "1.IH" [OF rd True] have "quiet s1 s'" by simp
    with quiet_ioread32 [OF rd] show ?thesis by (rule quiet_trans)
  next
    case False
    with rest quiet_ioread32 [OF rd] show ?thesis by simp
  qed
qed

lemma quiet_check_error: "davinci_spi_check_error hw s st = (r, s') \<Longrightarrow> quiet s s'"
  by (auto simp: davinci_spi_check_error_def dev_dbg_def emit_def quiet_def dat1_writes_def
      split: if_splits)

lemma quiet_bufs_prep: "davinci_spi_bufs_prep hw spi s = Return r s' \<Longrightarrow> quiet s s'"
  by (auto simp: davinci_spi_bufs_prep_def Let_def bnd_Return split: if_splits
      intro: quiet_trans [OF quiet_iowrite32 quiet_set_io_bits]
             quiet_trans [OF quiet_iowrite32 quiet_clear_io_bits])

lemma dat1_writes_emit:
  "dat1_writes (emit e s) = dat1_writes s @ (if is_dat1_write e then [e] else [])"
  by (simp add: dat1_writes_def emit_def)

text \<open>signed counters\<close>

lemma sint_dec: "0 < sint (c :: s32) \<Longrightarrow> sint (c - 1) = sint c - 1"
  using sint_lt [of c] by (simp add: sint_word_ariths signed_take_bit_int_eq_self)

lemma sint_inc: "sint (i :: s32) < sint (n :: s32) \<Longrightarrow> sint (i + 1) = sint i + 1"
  using sint_lt [of n] sint_ge [of i] by (simp add: sint_word_ariths signed_take_bit_int_eq_self)

lemma sless_dec_one: "0 <s (c :: s32) \<Longrightarrow> c - 1 \<le>s 0 \<Longrightarrow> c = 1"
proof -
  assume a: "0 <s c" and b: "c - 1 \<le>s 0"
  from a have p: "0 < sint c" by (simp add: word_sless_alt)
  with b have "sint c = 1" by (simp add: word_sle_eq sint_dec)
  then show "c = 1" by (intro signed_word_eqI) simp
qed

lemma spos_unat_dec: "0 <s (c :: s32) \<Longrightarrow> Suc (unat (c - 1)) = unat c"
proof -
  assume "0 <s c"
  then have "c \<noteq> 0" by (auto simp: word_sless_alt)
  then show ?thesis by (simp add: unat_minus_one unat_gt_0)
qed

lemma spos_dec: "0 <s (c :: s32) \<Longrightarrow> \<not> c - 1 \<le>s 0 \<Longrightarrow> 0 <s c - 1"
  by (simp add: word_sless_alt word_sle_eq)

lemma sless_Suc: "(i :: s32) <s n \<Longrightarrow> i + 1 \<le>s n"
  by (simp add: word_sless_alt word_sle_eq sint_inc)

lemma sless_diff: "(i :: s32) <s n \<Longrightarrow> Suc (unat (n - (i + 1))) = unat (n - i)"
proof -
  assume "i <s n"
  then have "n - i \<noteq> 0" by (auto simp: word_sless_alt)
  then have "Suc (unat (n - i - 1)) = unat (n - i)" by (simp add: unat_minus_one unat_gt_0)
  then show ?thesis by (simp add: diff_diff_eq add.commute)
qed

lemma sle_not_less: "(i :: s32) \<le>s n \<Longrightarrow> \<not> i <s n \<Longrightarrow> n - i = 0"
  by (simp add: word_sless_alt word_sle_eq) (metis signed_word_eqI order.antisym not_less)


lemma call_get_tx_dat1: "call_get_tx s = (d, s') \<Longrightarrow> dat1_writes s' = dat1_writes s"
  by (auto simp: call_get_tx_def davinci_spi_tx_buf_u8_def davinci_spi_tx_buf_u16_def
      dat1_writes_def split: tx_accessor.splits)

lemma call_get_rx_dat1: "dat1_writes (call_get_rx d s) = dat1_writes s"
  by (simp add: call_get_rx_def davinci_spi_rx_buf_u8_def davinci_spi_rx_buf_u16_def
      dat1_writes_def split: rx_accessor.splits)

lemma pio_tx_loop_writes:
  "pio_tx_loop hw t d c s = Return x s' \<Longrightarrow> 0 <s c \<Longrightarrow>
   length (dat1_writes s') = length (dat1_writes s) + unat c"
proof (induction hw t d c s rule: pio_tx_loop.induct)
  case (1 hw t d c s)
  obtain tx_data s0 where g: "call_get_tx s = (tx_data, s0)" by (cases "call_get_tx s")
  define d' where "d' = (d AND NOT 0xFFFF) OR (0xFFFF AND tx_data)"
  note unf = "1.prems"(1) [unfolded pio_tx_loop.simps [of hw t d c s] g prod.case Let_def,
      folded d'_def]
  from unf obtain buf s1 c' s2 u s3 u' s4 where
    r1: "ioread32 SPIBUF s0 = Return buf s1"
    and r2: "(if buf AND SPIBUF_TXFULL_MASK hw = 0
              then bnd (iowrite32 d' SPIDAT1 s1) (\<lambda>_ s. Return (c - 1) s)
              else Return c s1) = Return c' s2"
    and r3: "spin_while SPIBUF (\<lambda>v. v AND SPIBUF_RXEMPTY_MASK hw \<noteq> 0) s2 = Return u s3"
    and r4: "(if rx_buf t \<noteq> 0
              then bnd (ioread32 SPIBUF s3) (\<lambda>buf_val s. Return () (call_get_rx buf_val s))
              else Return () s3) = Return u' s4"
    and r5: "(if c' \<le>s 0 then Return () s4 else pio_tx_loop hw t d' c' s4) = Return x s'"
    by (auto simp: bnd_Return)
  have w0: "dat1_writes s1 = dat1_writes s"
    using quiet_fields(6) [OF quiet_ioread32 [OF r1]] call_get_tx_dat1 [OF g] by simp
  have w3: "dat1_writes s3 = dat1_writes s2"
    using quiet_fields(6) [OF quiet_spin_while [OF r3]] .
  have w4: "dat1_writes s4 = dat1_writes s3"
    using r4 by (auto simp: bnd_Return call_get_rx_dat1 split: if_splits
        dest!: quiet_ioread32 quiet_fields(6))
  have step: "(c' = c - 1 \<and> length (dat1_writes s2) = Suc (length (dat1_writes s1)))
            \<or> (c' = c \<and> dat1_writes s2 = dat1_writes s1)"
    using r2 by (auto simp: iowrite32_def dat1_writes_emit split: if_splits)
  show ?case
  proof (cases "c' \<le>s 0")
    case True
    with r5 have e: "s' = s4" by simp
    from step True "1.prems"(2) have cc: "c' = c - 1"
      and len: "length (dat1_writes s2) = Suc (length (dat1_writes s1))"
      by (auto simp: word_sless_alt word_sle_eq)
    from True cc "1.prems"(2) have "c = 1" by (auto dest: sless_dec_one)
    with len show ?thesis by (simp add: e w0 w3 w4)
  next
    case False
    with r5 have rec: "pio_tx_loop hw t d' c' s4 = Return x s'" by simp
    from False have pos: "0 <s c'" by (simp add: word_sless_alt word_sle_eq)
    from "1.IH" [OF g [symmetric] d'_def r1 r2 r3 r4 False rec pos]
    have ih: "length (dat1_writes s') = length (dat1_writes s4) + unat c'" .
    from step show ?thesis
    proof
      assume "c' = c - 1 \<and> length (dat1_writes s2) = Suc (length (dat1_writes s1))"
      then show ?thesis
        using ih spos_unat_dec [OF "1.prems"(2)] by (simp add: w0 w3 w4)
    next
      assume "c' = c \<and> dat1_writes s2 = dat1_writes s1"
      then show ?thesis using ih by (simp add: w0 w3 w4)
    qed
  qed
qed


lemma rx_step_call_get_rx:
  "rx (call_get_rx d s) = rx s + rx_step s" "rx_step (call_get_rx d s) = rx_step s"
  "dat1_writes (call_get_rx d s) = dat1_writes s"
  by (simp_all add: call_get_rx_def davinci_spi_rx_buf_u8_def davinci_spi_rx_buf_u16_def
      rx_step_def dat1_writes_def split: rx_accessor.splits)

lemma pio_poll_loop_stores:
  "pio_poll_loop hw d c s = Return x s' \<Longrightarrow> 0 <s c \<Longrightarrow>
   rx s' = rx s + c * rx_step s \<and> rx_step s' = rx_step s
   \<and> length (dat1_writes s') \<le> length (dat1_writes s) + unat c"
proof (induction hw d c s rule: pio_poll_loop.induct)
  case (1 hw d c s)
  note unf = "1.prems"(1) [unfolded pio_poll_loop.simps [of hw d c s] Let_def]
  from unf obtain v s1 u s2 u' s3 flg s4 buf s5 where
    r1: "ioread32 SPIBUF s = Return v s1"
    and r2: "(if v AND SPIBUF_TXFULL_MASK hw = 0
              then iowrite32 d SPIDAT1 s1 else Return () s1) = Return u s2"
    and r3: "spin_while SPIBUF (\<lambda>v. v AND SPIBUF_RXEMPTY_MASK hw \<noteq> 0) s2 = Return u' s3"
    and r4: "ioread32 SPIFLG s3 = Return flg s4"
    and r5: "ioread32 SPIBUF s4 = Return buf s5"
    and r6: "(if c - 1 \<le>s 0 then Return () (call_get_rx buf s5)
              else pio_poll_loop hw d (c - 1) (call_get_rx buf s5)) = Return x s'"
    by (auto simp: bnd_Return)
  have q1: "quiet s s1" using r1 by (rule quiet_ioread32)
  have f2: "rx s2 = rx s1 \<and> rx_step s2 = rx_step s1
            \<and> length (dat1_writes s2) \<le> Suc (length (dat1_writes s1))"
    using r2 by (auto simp: iowrite32_def emit_def rx_step_def dat1_writes_def split: if_splits)
  have q3: "quiet s2 s3" using r3 by (rule quiet_spin_while)
  have q5: "quiet s3 s5" using quiet_trans [OF quiet_ioread32 [OF r4] quiet_ioread32 [OF r5]] .
  let ?s6 = "call_get_rx buf s5"
  have rx6: "rx ?s6 = rx s + rx_step s" and st6: "rx_step ?s6 = rx_step s"
    and w6: "length (dat1_writes ?s6) \<le> Suc (length (dat1_writes s))"
    using f2 quiet_fields [OF q1] quiet_fields [OF q3] quiet_fields [OF q5]
    by (simp_all add: rx_step_call_get_rx)
  show ?case
  proof (cases "c - 1 \<le>s 0")
    case True
    with r6 have e: "s' = ?s6" by simp
    from True "1.prems"(2) have "c = 1" by (auto dest: sless_dec_one)
    then show ?thesis using rx6 st6 w6 by (simp add: e)
  next
    case False
    with r6 have rec: "pio_poll_loop hw d (c - 1) ?s6 = Return x s'" by simp
    from False have pos: "0 <s c - 1" by (simp add: word_sless_alt word_sle_eq)
    from "1.IH" [OF r1 r2 r3 r4 r5 refl refl False rec pos]
    have ih: "rx s' = rx ?s6 + (c - 1) * rx_step ?s6 \<and> rx_step s' = rx_step ?s6
       \<and> length (dat1_writes s') \<le> length (dat1_writes ?s6) + unat (c - 1)" .
    then show ?thesis
      using rx6 st6 w6 spos_unat_dec [OF "1.prems"(2)] by (simp add: algebra_simps)
  qed
qed


lemma pio_irq_loop_writes:
  "pio_irq_loop hw d i s = Return x s' \<Longrightarrow> i \<le>s count s \<Longrightarrow>
   length (dat1_writes s') = length (dat1_writes s) + unat (count s - i)"
proof (induction hw d i s rule: pio_irq_loop.induct)
  case (1 hw d i s)
  show ?case
  proof (cases "i <s count s")
    case True
    note unf = "1.prems"(1) [unfolded pio_irq_loop.simps [of hw d i s]]
    from unf True obtain u s1 u' s2 u'' s3 where
      r1: "set_io_bits SPIINT
             (SPIINT_BITERR_INTR hw OR SPIINT_OVRRUN_INTR hw OR SPIINT_RX_INTR hw) s
           = Return u s1"
      and r2: "iowrite32 d SPIDAT1 s1 = Return u' s2"
      and r3: "spin_while SPIINT (\<lambda>v. v AND SPIINT_RX_INTR hw \<noteq> 0) s2 = Return u'' s3"
      and rec: "pio_irq_loop hw d (i + 1) s3 = Return x s'"
      by (auto simp: bnd_Return)
    have q1: "quiet s s1" using r1 by (intro quiet_set_io_bits [OF _ r1]) simp
    have f2: "count s2 = count s1 \<and> length (dat1_writes s2) = Suc (length (dat1_writes s1))"
      using r2 by (auto simp: iowrite32_def emit_def dat1_writes_def)
    have q3: "quiet s2 s3" using r3 by (rule quiet_spin_while)
    have c3: "count s3 = count s"
      using f2 quiet_fields(3) [OF q1] quiet_fields(3) [OF q3] by simp
    have w3: "length (dat1_writes s3) = Suc (length (dat1_writes s))"
      using f2 quiet_fields(6) [OF q1] quiet_fields(6) [OF q3] by simp
    from sless_Suc [OF True] have le: "i + 1 \<le>s count s3" by (simp add: c3)
    from "1.IH" [OF True r1 r2 r3 rec le]
    show ?thesis using sless_diff [OF True] by (simp add: c3 w3)
  next
    case False
    with "1.prems"(1) have "s' = s" by (subst (asm) pio_irq_loop.simps) simp
    with sle_not_less [OF "1.prems"(2) False] show ?thesis by simp
  qed
qed

lemma pio_transfer_words:
  assumes pos: "0 <s count s"
  shows "post (pio_transfer hw spi t s) (\<lambda>r s'.
     (tx_buf t \<noteq> 0 \<longrightarrow> length (dat1_writes s') = length (dat1_writes s) + unat (count s))
   \<and> (tx_buf t = 0 \<and> poll_mode (pdata s) \<noteq> 0 \<longrightarrow>
        rx s' = rx s + count s * rx_step s
        \<and> length (dat1_writes s') \<le> length (dat1_writes s) + unat (count s))
   \<and> (tx_buf t = 0 \<and> poll_mode (pdata s) = 0 \<longrightarrow>
        length (dat1_writes s') = length (dat1_writes s) + unat (count s) + 1))"
  unfolding pio_transfer_def Let_def post_bnd
proof ((rule postI)+, goal_cases)
  case (1 u1 s1 u2 s2 u3 s3 u4 s4 u5 s5 st s6 r s')
  have q1: "quiet s s1" by (rule quiet_set_io_bits [OF _ 1(1)]) simp
  have q2: "quiet s1 s2" by (rule quiet_iowrite32 [OF _ 1(2)]) simp
  have q3: "quiet s2 s3" by (rule quiet_clear_io_bits [OF _ 1(3)]) simp
  have q4: "quiet s3 s4" by (rule quiet_spin_while [OF 1(4)])
  have q02: "quiet s s2" using q1 q2 by (rule quiet_trans)
  have q04: "quiet s s4" using q02 quiet_trans [OF q3 q4] by (rule quiet_trans)
  have q6: "quiet s5 s6" by (rule quiet_ioread32 [OF 1(6)])
  have q7: "quiet s6 s'" using 1(7) by (auto split: prod.splits dest: quiet_check_error)
  have q57: "quiet s5 s'" using q6 q7 by (rule quiet_trans)
  have c2: "count s2 = count s" by (rule quiet_fields(3) [OF q02])
  have pos2: "0 <s count s2" using pos by (simp add: c2)
  have A: "tx_buf t \<noteq> 0 \<longrightarrow>
      length (dat1_writes s') = length (dat1_writes s) + unat (count s)"
  proof
    assume tx: "tx_buf t \<noteq> 0"
    with 1(5) obtain v s4' where a: "clear_io_bits SPIINT (SPIINT_MASKALL hw) s4 = Return v s4'"
      and b: "pio_tx_loop hw t
                (push_bit (SPIDAT1_CSHOLD_SHIFT hw) (cs_hold (pdata s2)) OR
                 push_bit (SPIDAT1_CSNR_SHIFT hw)
                   (ucast (NOT (push_bit (unat (chip_select spi)) 1) :: u8)))
                (count s2) s4' = Return u5 s5"
      by (auto simp: bnd_Return)
    have "quiet s4 s4'" by (rule quiet_clear_io_bits [OF _ a]) simp
    with q04 have "quiet s s4'" by (rule quiet_trans)
    from pio_tx_loop_writes [OF b pos2] quiet_fields(6) [OF this] quiet_fields(6) [OF q57]
    show "length (dat1_writes s') = length (dat1_writes s) + unat (count s)"
      by (simp add: c2)
  qed
  have B: "tx_buf t = 0 \<and> poll_mode (pdata s) \<noteq> 0 \<longrightarrow>
        rx s' = rx s + count s * rx_step s
        \<and> length (dat1_writes s') \<le> length (dat1_writes s) + unat (count s)"
  proof
    assume "tx_buf t = 0 \<and> poll_mode (pdata s) \<noteq> 0"
    with 1(5) quiet_fields(5) [OF q04]
    have b: "pio_poll_loop hw
                (push_bit (SPIDAT1_CSHOLD_SHIFT hw) (cs_hold (pdata s2)) OR
                 push_bit (SPIDAT1_CSNR_SHIFT hw)
                   (ucast (NOT (push_bit (unat (chip_select spi)) 1) :: u8)))
                (count s2) s4 = Return u5 s5"
      by simp
    from pio_poll_loop_stores [OF b pos2] quiet_fields [OF q04] quiet_fields [OF q57]
    show "rx s' = rx s + count s * rx_step s
        \<and> length (dat1_writes s') \<le> length (dat1_writes s) + unat (count s)"
      by (simp add: c2)
  qed
  have C: "tx_buf t = 0 \<and> poll_mode (pdata s) = 0 \<longrightarrow>
        length (dat1_writes s') = length (dat1_writes s) + unat (count s) + 1"
  proof
    assume "tx_buf t = 0 \<and> poll_mode (pdata s) = 0"
    with 1(5) quiet_fields(5) [OF q04] obtain v s4' where
      a: "pio_irq_loop hw
                (push_bit (SPIDAT1_CSHOLD_SHIFT hw) (cs_hold (pdata s2)) OR
                 push_bit (SPIDAT1_CSNR_SHIFT hw)
                   (ucast (NOT (push_bit (unat (chip_select spi)) 1) :: u8)))
                0 s4 = Return v s4'"
      and b: "length (dat1_writes s5) = Suc (length (dat1_writes s4'))"
      by (auto simp: bnd_Return iowrite32_def emit_def dat1_writes_def)
    have c4: "count s4 = count s" by (rule quiet_fields(3) [OF q04])
    have "0 \<le>s count s4" using pos by (simp add: c4 word_sless_alt word_sle_eq)
    from pio_irq_loop_writes [OF a this] b quiet_fields(6) [OF q04] quiet_fields(6) [OF q57]
    show "length (dat1_writes s') = length (dat1_writes s) + unat (count s) + 1"
      by (simp add: c4)
  qed
  from A B C show ?case by blast
qed


lemma whole_words_less:
  fixes l c :: u32
  assumes "l mod c \<noteq> 0"
  shows "l div c * c < l"
proof -
  have "unat l = unat l div unat c * unat c + unat l mod unat c" by simp
  moreover have "0 < unat l mod unat c"
    using assms by (simp add: unat_gt_0 [symmetric] unat_mod del: unat_gt_0)
  ultimately have lt: "unat l div unat c * unat c < unat l" by linarith
  then have "unat (l div c) * unat c < 2 ^ LENGTH(32)"
    using unsigned_less [of l, where 'a = nat] by (simp add: unat_div)
  then have "unat (l div c * c) = unat l div unat c * unat c"
    by (simp add: unat_mult_lem [THEN iffD1] unat_div)
  with lt show ?thesis by (simp add: word_less_nat_alt)
qed

lemma dat1_writes_upd [simp]:
  "dat1_writes (s\<lparr>tx := a\<rparr>) = dat1_writes s" "dat1_writes (s\<lparr>rx := a\<rparr>) = dat1_writes s"
  "dat1_writes (s\<lparr>count := c\<rparr>) = dat1_writes s" "dat1_writes (s\<lparr>in_use := b\<rparr>) = dat1_writes s"
  "dat1_writes (s\<lparr>done_completion := k\<rparr>) = dat1_writes s"
  by (simp_all add: dat1_writes_def)

lemma rx_step_upd [simp]:
  "rx_step (s\<lparr>tx := a\<rparr>) = rx_step s" "rx_step (s\<lparr>rx := a\<rparr>) = rx_step s"
  "rx_step (s\<lparr>count := c\<rparr>) = rx_step s" "rx_step (s\<lparr>in_use := b\<rparr>) = rx_step s"
  "rx_step (s\<lparr>done_completion := k\<rparr>) = rx_step s"
  by (simp_all add: rx_step_def)

lemmas c10_defs = ready16_def xfer_short_def rx_step_def

text \<open>
  Claim C10: a PIO transfer whose length is not a multiple of the bytes per word
  exchanges only \<open>len / bytes_per_word\<close> words (rounded down) and returns the full length
  on success; the bytes beyond those words are neither sent nor received. The code on
  a transfer of one byte with two bytes per word, where \<open>len / bytes_per_word = 0\<close>:
  with a transmit buffer the loop body runs once, a command word carrying the byte
  \<open>0x12\<close> and the byte \<open>0x34\<close> behind the buffer is written and the cursor ends two
  bytes on; receive-only by polling the loop body runs once as well, a command word is
  written and two bytes are stored through the receive cursor into the buffer of one;
  receive-only by interrupt the \<open>for\<close> loop runs no iteration, and all that is written
  is the closing word after the loop. All three calls return the length 1.
\<close>

theorem bufs_pio_short_transfer_exchanges_word:
  "len xfer_short div ucast (bytes_per_word ready16 (chip_select spi0)) = 0
   \<and> value_of short_run = Some (Inr 1)
   \<and> dat1_writes (state_of short_run) = [IoWrite SPIDAT1 0xFE3412]
   \<and> tx (state_of short_run) = 0x1002
   \<and> value_of short_poll_run = Some (Inr 1)
   \<and> dat1_writes (state_of short_poll_run) = [IoWrite SPIDAT1 0xFE0000]
   \<and> rx (state_of short_poll_run) = 0x2002
   \<and> mem (state_of short_poll_run) 0x2000 = 0xEF
   \<and> mem (state_of short_poll_run) 0x2001 = 0xBE
   \<and> value_of short_irq_run = Some (Inr 1)
   \<and> filter is_write (trace (state_of short_irq_run))
       = [IoWrite SPIPC0 0xE01, IoWrite SPIGCR1 0, IoWrite SPIGCR1 0x1000000,
          IoWrite SPIDELAY 0, IoWrite SPIDEF 0, IoWrite SPIDAT1 0xFC0000]
   \<and> rx (state_of short_irq_run) = 0x2000"
  by (simp add: short_run_def short_poll_run_def short_irq_run_def run_defs c10_defs
      cong: bnd_weak_cong)

text \<open>
  A transfer of three bytes with two bytes per word, the transmit FIFO full at the
  first attempt: the one command word that is written carries the third byte \<open>0x56\<close>
  and the byte \<open>0x78\<close> behind the buffer, since the cursor has moved past the first
  word as in the run of claim C1.
\<close>

lemma odd_transfer_fifo_full:
  "value_of odd_full_run = Some (Inr 3)
   \<and> dat1_writes (state_of odd_full_run) = [IoWrite SPIDAT1 0xFE7856]
   \<and> tx (state_of odd_full_run) = 0x1004"
  by (simp add: odd_full_run_def run_defs c10_defs cong: bnd_weak_cong)

text \<open>
  With at least one whole word the loops run as often as there are whole words. Let
  \<open>n = len / bytes_per_word\<close>, rounded down, be at least 1 (and below \<open>2^31\<close>, so that
  the \<open>int\<close> count is positive). Then at every return of \<open>davinci_spi_bufs_pio\<close>: with a
  transmit buffer \<open>n\<close> command words were written; receive-only by polling, the receive
  cursor has moved by \<open>n\<close> words and at most \<open>n\<close> command words were written;
  receive-only by interrupt, \<open>n\<close> command words and the closing word were written. On
  success the returned value is \<open>len\<close> while the count left in the structure is
  \<open>n * bytes_per_word\<close>, which is less than \<open>len\<close> when \<open>len\<close> is not a multiple.
\<close>

theorem bufs_pio_whole_words:
  fixes hw spi t s
  defines "conv \<equiv> ucast (bytes_per_word s (chip_select spi)) :: u32"
  defines "n \<equiv> len t div conv"
  assumes nz: "conv \<noteq> 0"
    and pos: "0 <s n"
    and ret: "davinci_spi_bufs_pio hw spi t s = Return r s'"
  shows "(tx_buf t \<noteq> 0 \<longrightarrow>
            length (dat1_writes s') = length (dat1_writes s) + unat n)
       \<and> (tx_buf t = 0 \<and> poll_mode (pdata s) \<noteq> 0 \<longrightarrow>
            rx s' = rx_buf t + n * rx_step s
            \<and> length (dat1_writes s') \<le> length (dat1_writes s) + unat n)
       \<and> (tx_buf t = 0 \<and> poll_mode (pdata s) = 0 \<longrightarrow>
            length (dat1_writes s') = length (dat1_writes s) + unat n + 1)
       \<and> (\<forall>x. r = Inr x \<longrightarrow> x = len t \<and> count s' = n * conv)
       \<and> (len t mod conv \<noteq> 0 \<longrightarrow> n * conv < len t)"
proof -
  have nz': "bytes_per_word s (chip_select spi) \<noteq> 0"
    using nz by (auto simp: conv_def)
  have "post (davinci_spi_bufs_pio hw spi t s) (\<lambda>r s'.
         (tx_buf t \<noteq> 0 \<longrightarrow>
            length (dat1_writes s') = length (dat1_writes s) + unat n)
       \<and> (tx_buf t = 0 \<and> poll_mode (pdata s) \<noteq> 0 \<longrightarrow>
            rx s' = rx_buf t + n * rx_step s
            \<and> length (dat1_writes s') \<le> length (dat1_writes s) + unat n)
       \<and> (tx_buf t = 0 \<and> poll_mode (pdata s) = 0 \<longrightarrow>
            length (dat1_writes s') = length (dat1_writes s) + unat n + 1)
       \<and> (\<forall>x. r = Inr x \<longrightarrow> x = len t \<and> count s' = n * conv))"
    unfolding davinci_spi_bufs_pio_def Let_def
  proof (simp add: nz' del: post_bnd, simp only: post_bnd, rule postI, goal_cases)
    case (1 r1 s1)
    have r1: "r1 = Inr ()" using post_D [OF bufs_prep_post 1] by simp
    note q = quiet_fields [OF quiet_bufs_prep [OF 1], simplified]
    have c1: "count s1 = n" using q(3) by (simp add: n_def conv_def)
    have pos1: "0 <s count (s1\<lparr>done_completion := 0, in_use := True\<rparr>)"
      using pos c1 by simp
    show ?case
      unfolding r1 sum.case post_bnd
      apply (rule post_mono [OF post_conj [OF pio_transfer_post pio_transfer_words [OF pos1]]])
      using q c1 apply (auto simp: conv_def dest!: xfer_only_fields(4) split: sum.splits)
      done
  qed
  from post_D [OF this ret] whole_words_less [of "len t" conv]
  show ?thesis by (simp add: n_def)
qed


theorem bufs_pio_whole_words_witness:
  "ucast (bytes_per_word ready16 (chip_select spi0)) \<noteq> (0 :: u32)
   \<and> 0 <s len (xfer_short\<lparr>len := 3\<rparr>) div ucast (bytes_per_word ready16 (chip_select spi0))
   \<and> len (xfer_short\<lparr>len := 3\<rparr>) mod ucast (bytes_per_word ready16 (chip_select spi0)) \<noteq> 0
   \<and> (\<exists>s'. odd_tx_run = Return (Inr 3) s' \<and> length (dat1_writes s') = 1 \<and> count s' = 2)
   \<and> (\<exists>s'. odd_poll_run = Return (Inr 3) s' \<and> rx s' = 0x2002 \<and> count s' = 2)
   \<and> (\<exists>s'. odd_irq_run = Return (Inr 3) s' \<and> length (dat1_writes s') = 2 \<and> count s' = 2)"
proof -
  have h: "ucast (bytes_per_word ready16 (chip_select spi0)) \<noteq> (0 :: u32)
      \<and> 0 <s len (xfer_short\<lparr>len := 3\<rparr>) div ucast (bytes_per_word ready16 (chip_select spi0))
      \<and> len (xfer_short\<lparr>len := 3\<rparr>) mod ucast (bytes_per_word ready16 (chip_select spi0)) \<noteq> 0"
    by (simp add: c10_defs word_sless_alt)
  have "value_of odd_tx_run = Some (Inr 3)"
    by (simp add: odd_tx_run_def run_defs c10_defs cong: bnd_weak_cong)
  then obtain s1 where r1: "odd_tx_run = Return (Inr 3) s1"
    by (auto dest: value_of_Some)
  have "value_of odd_poll_run = Some (Inr 3)"
    by (simp add: odd_poll_run_def run_defs c10_defs cong: bnd_weak_cong)
  then obtain s2 where r2: "odd_poll_run = Return (Inr 3) s2"
    by (auto dest: value_of_Some)
  have "value_of odd_irq_run = Some (Inr 3)"
    by (simp add: odd_irq_run_def run_defs c10_defs cong: bnd_weak_cong)
  then obtain s3 where r3: "odd_irq_run = Return (Inr 3) s3"
    by (auto dest: value_of_Some)
  have a: "length (dat1_writes s1) = 1 \<and> count s1 = 2"
    using bufs_pio_whole_words [OF _ _ r1 [unfolded odd_tx_run_def]]
    by (simp add: c10_defs probed_def spi0_def dat1_writes_def word_sless_alt)
  have b: "rx s2 = 0x2002 \<and> count s2 = 2"
    using bufs_pio_whole_words [OF _ _ r2 [unfolded odd_poll_run_def]]
    by (simp add: c10_defs probed_def spi0_def dat1_writes_def word_sless_alt)
  have c: "length (dat1_writes s3) = 2 \<and> count s3 = 2"
    using bufs_pio_whole_words [OF _ _ r3 [unfolded odd_irq_run_def]]
    by (simp add: c10_defs probed_def spi0_def dat1_writes_def word_sless_alt)
  from r1 a have A: "\<exists>s'. odd_tx_run = Return (Inr 3) s' \<and> length (dat1_writes s') = 1 \<and> count s' = 2"
    by (intro exI [of _ s1]) simp
  from r2 b have B: "\<exists>s'. odd_poll_run = Return (Inr 3) s' \<and> rx s' = 0x2002 \<and> count s' = 2"
    by (intro exI [of _ s2]) simp
  from r3 c have C: "\<exists>s'. odd_irq_run = Return (Inr 3) s' \<and> length (dat1_writes s') = 2 \<and> count s' = 2"
    by (intro exI [of _ s3]) simp
  show ?thesis
    by (rule conjI [OF conjunct1 [OF h] conjI [OF conjunct1 [OF conjunct2 [OF h]]
          conjI [OF conjunct2 [OF conjunct2 [OF h]] conjI [OF A conjI [OF B C]]]]])
qed

end
